theory Spec2Isabelle
  imports
    Main
    "HOL-Library.AList"
    "HOL-Library.Char_ord"
    "HOL-Library.List_Lexorder"
    "HOL-Library.Multiset"
begin

section \<open>Python values that reach the query encoder\<close>

text \<open>
  The keyword arguments of an API method are \<^verbatim>\<open>None\<close>, a string, an integer, a
  boolean, or a list of those. \<^verbatim>\<open>isinstance(value, list)\<close> is the constructor test
  \<open>PyList\<close>; \<^verbatim>\<open>value is not None\<close> is \<open>value \<noteq> Scalar PyNone\<close>. Floating-point
  parameters and lists nested in lists are not passed by any method of the wrapper and are
  not modelled. Strings are lists of 8-bit characters, compared by character code as Python
  compares code points.
\<close>

datatype scalar = PyNone | PyStr string | PyInt int | PyBool bool

datatype pyval = Scalar scalar | PyList "scalar list"

text \<open>
  A \<^verbatim>\<open>dict\<close> is an association list in insertion order whose keys are distinct;
  \<^verbatim>\<open>d[k] = v\<close> is \<^const>\<open>AList.update\<close>: it overwrites in place when the key is there
  and appends otherwise. \<open>kwargs\<close> is the dictionary a function receives through
  \<^verbatim>\<open>**kwargs\<close>; a call cannot pass the names of the function's own parameters
  (\<^verbatim>\<open>self\<close>, \<^verbatim>\<open>method\<close>) through it.
\<close>

type_synonym kwargs = "(string \<times> pyval) list"

subsection \<open>\<^verbatim>\<open>str\<close>\<close>

text \<open>
  The decimal digits of a non-negative integer, most significant first, and \<^verbatim>\<open>str\<close> of an
  integer: a minus sign before the digits of the absolute value when it is negative.
\<close>

function str_digits :: "int \<Rightarrow> string" where
  "str_digits i =
     (if i < 10 then [''0123456789'' ! nat i]
      else str_digits (i div 10) @ [''0123456789'' ! nat (i mod 10)])"
  by pat_completeness auto
termination
  by (relation "measure nat") auto

declare str_digits.simps [simp del]

definition str_int :: "int \<Rightarrow> string" where
  "str_int i = (if i < 0 then CHR ''-'' # str_digits (- i) else str_digits i)"

fun py_str :: "scalar \<Rightarrow> string" where
  "py_str PyNone = ''None''"
| "py_str (PyStr s) = s"
| "py_str (PyInt i) = str_int i"
| "py_str (PyBool b) = (if b then ''True'' else ''False'')"

subsection \<open>\<^verbatim>\<open>sep.join(xs)\<close>\<close>

fun join :: "string \<Rightarrow> string list \<Rightarrow> string" where
  "join sep [] = []"
| "join sep [x] = x"
| "join sep (x # y # ys) = x @ sep @ join sep (y # ys)"

section \<open>The canonical query encoder\<close>

text \<open>
  \<^verbatim>\<open>
  def _to_http(self, param, value):
      if isinstance(value, list):
          value = ';'.join(map(str, value))
      else:
          value = str(value)
      return '{}={}'.format(param, value)
  \<close>
\<close>

fun to_http :: "string \<Rightarrow> pyval \<Rightarrow> string" where
  "to_http param (PyList xs) = param @ ''='' @ join '';'' (map py_str xs)"
| "to_http param (Scalar a) = param @ ''='' @ py_str a"

text \<open>
  \<^verbatim>\<open>
  def _sorted_str_kwargs(self, **kwargs):
      lst = list()
      for param, value in kwargs.items():
          if value is not None:
              lst.append(self._to_http(param, value))
      return sorted(lst)
  \<close>
  The loop is \<open>collect\<close>, with the list built so far as its second argument.
  \<^verbatim>\<open>sorted\<close> on strings returns the one ascending arrangement of its argument.
\<close>

fun collect :: "kwargs \<Rightarrow> string list \<Rightarrow> string list" where
  "collect [] lst = lst"
| "collect ((param, val) # rest) lst =
     collect rest (if val \<noteq> Scalar PyNone then lst @ [to_http param val] else lst)"

definition sorted_str_kwargs :: "kwargs \<Rightarrow> string list" where
  "sorted_str_kwargs kw = sort (collect kw [])"

text \<open>
  \<^verbatim>\<open>
  def _get_url(self, **kwargs):
      return '&'.join(self._sorted_str_kwargs(**kwargs))
  \<close>
\<close>

definition get_url :: "kwargs \<Rightarrow> string" where
  "get_url kw = join ''&'' (sorted_str_kwargs kw)"

subsection \<open>The encoder as the specification words it\<close>

text \<open>
  Written from the specification's sentence, not from the code: drop the parameters whose
  value is unset, serialise a sequence by joining the string forms of its elements with a
  semicolon and a scalar by its string form, sort the pair strings, join them with an
  ampersand.
\<close>

definition spec_value :: "pyval \<Rightarrow> string" where
  "spec_value v = (case v of PyList xs \<Rightarrow> join '';'' (map py_str xs) | Scalar a \<Rightarrow> py_str a)"

definition spec_pairs :: "kwargs \<Rightarrow> string list" where
  "spec_pairs kw =
     map (\<lambda>(k, v). k @ ''='' @ spec_value v) (filter (\<lambda>(k, v). v \<noteq> Scalar PyNone) kw)"

definition spec_encode :: "kwargs \<Rightarrow> string" where
  "spec_encode kw = join ''&'' (sort (spec_pairs kw))"

section \<open>JSON values and response records\<close>

text \<open>
  What \<^verbatim>\<open>json()\<close> returns: \<^verbatim>\<open>None\<close>, a boolean, a number, a string, a list or a
  dictionary. Numbers are carried as integers; the mapper never inspects one. \<open>JObj\<close>
  holds the members of an object in the order of the text; \<open>as_dict\<close> is the dictionary
  built from them, in which a later member replaces an earlier one of the same name.
\<close>

datatype json =
  JNull | JBool bool | JNum int | JStr string | JArr "json list" | JObj "(string \<times> json) list"

definition as_dict :: "(string \<times> 'v) list \<Rightarrow> (string \<times> 'v) list" where
  "as_dict kvs = fold (\<lambda>(k, v) d. AList.update k v d) kvs []"

definition dict_get :: "(string \<times> 'v) list \<Rightarrow> string \<Rightarrow> 'v option" where
  "dict_get kvs k = map_of (as_dict kvs) k"

text \<open>
  A Python value the mapper handles is raw JSON, an instance of one of the record classes
  with its attributes, or a list of such values. Every record class derives from
  \<^verbatim>\<open>CodeforcesResponse\<close>.
\<close>

datatype cls =
  CodeforcesResponse | User | BlogEntry | Comment | RecentAction | RatingChange | Contest
  | Member | Party | Problem | ProblemStatistics | Submission | Hack | ProblemResult
  | RanklistRow

datatype pyobj = Raw json | Obj cls "(string \<times> pyobj) list" | ObjList "pyobj list"

type_synonym attrs = "(string \<times> pyobj) list"

text \<open>
  The exceptions. \<open>ValidationError\<close> is the \<^verbatim>\<open>TypeError\<close> a method raises itself for an
  argument over its limit, with its message; \<open>TypeError\<close> is the one the interpreter
  raises (a value that is not iterable, not subscriptable or has no length). The two
  \<^verbatim>\<open>ConnectionError\<close>s carry the HTTP status and the comment of the service.
\<close>

datatype error =
  ValidationError string
  | ConnectionError_status int
  | ConnectionError_comment pyobj
  | JSONDecodeError
  | AttributeError string
  | KeyError string
  | IndexError
  | TypeError

definition and_then :: "error + 'a \<Rightarrow> ('a \<Rightarrow> error + 'b) \<Rightarrow> error + 'b" where
  "and_then m f = (case m of Inl err \<Rightarrow> Inl err | Inr x \<Rightarrow> f x)"

subsection \<open>Operations of the interpreter on these values\<close>

text \<open>\<^verbatim>\<open>x.items()\<close>: only a dictionary has the method.\<close>

definition raw_attrs :: "(string \<times> json) list \<Rightarrow> attrs" where
  "raw_attrs kvs = map (\<lambda>(k, v). (k, Raw v)) (as_dict kvs)"

fun items :: "pyobj \<Rightarrow> error + (string \<times> pyobj) list" where
  "items (Raw (JObj kvs)) = Inr (raw_attrs kvs)"
| "items _ = Inl (AttributeError ''items'')"

text \<open>
  Iteration: over the elements of a list, the characters of a string, the keys of a
  dictionary; anything else is not iterable.
\<close>

fun iter :: "pyobj \<Rightarrow> error + pyobj list" where
  "iter (Raw (JArr xs)) = Inr (map Raw xs)"
| "iter (Raw (JStr s)) = Inr (map (\<lambda>c. Raw (JStr [c])) s)"
| "iter (Raw (JObj kvs)) = Inr (map (\<lambda>(k, v). Raw (JStr k)) (as_dict kvs))"
| "iter (ObjList xs) = Inr xs"
| "iter _ = Inl TypeError"

text \<open>\<^verbatim>\<open>len(x)\<close>.\<close>

fun py_len :: "pyobj \<Rightarrow> error + nat" where
  "py_len (Raw (JArr xs)) = Inr (length xs)"
| "py_len (Raw (JStr s)) = Inr (length s)"
| "py_len (Raw (JObj kvs)) = Inr (length (as_dict kvs))"
| "py_len (ObjList xs) = Inr (length xs)"
| "py_len _ = Inl TypeError"

text \<open>\<^verbatim>\<open>x[k]\<close> for a string \<open>k\<close>, and \<^verbatim>\<open>x[0]\<close>.\<close>

fun getitem :: "pyobj \<Rightarrow> string \<Rightarrow> error + pyobj" where
  "getitem (Raw (JObj kvs)) k =
     (case dict_get kvs k of Some v \<Rightarrow> Inr (Raw v) | None \<Rightarrow> Inl (KeyError k))"
| "getitem _ k = Inl TypeError"

fun getitem0 :: "pyobj \<Rightarrow> error + pyobj" where
  "getitem0 (Raw (JArr xs)) = (case xs of [] \<Rightarrow> Inl IndexError | x # _ \<Rightarrow> Inr (Raw x))"
| "getitem0 (Raw (JStr s)) = (case s of [] \<Rightarrow> Inl IndexError | c # _ \<Rightarrow> Inr (Raw (JStr [c])))"
| "getitem0 (Raw (JObj kvs)) = Inl (KeyError ''0'')"
| "getitem0 (ObjList xs) = (case xs of [] \<Rightarrow> Inl IndexError | x # _ \<Rightarrow> Inr x)"
| "getitem0 _ = Inl TypeError"

text \<open>
  Attributes of an instance: \<^verbatim>\<open>setattr\<close> (also written \<^verbatim>\<open>self.name = v\<close>), \<^verbatim>\<open>getattr\<close>
  (written \<^verbatim>\<open>self.name\<close>) and \<^verbatim>\<open>hasattr\<close>. An instance of a record class keeps its
  attributes in its dictionary, and \<^verbatim>\<open>setattr\<close> stores there, except under the three names
  that every such instance takes from its class: \<^verbatim>\<open>__class__\<close> accepts only a class, so a
  value that comes from JSON raises \<^verbatim>\<open>TypeError\<close>; \<^verbatim>\<open>__weakref__\<close> is not writable and
  raises \<^verbatim>\<open>AttributeError\<close>; \<^verbatim>\<open>__dict__\<close> accepts only a dictionary, which then is the
  dictionary of the instance, so that the attributes set before are gone, and raises
  \<^verbatim>\<open>TypeError\<close> for any other value. (That the JSON dictionary assigned to \<^verbatim>\<open>__dict__\<close>
  is afterwards shared with the instance is not modelled.)
\<close>

definition setattr :: "attrs \<Rightarrow> string \<Rightarrow> pyobj \<Rightarrow> error + attrs" where
  "setattr self name v =
     (if name = ''__class__'' then Inl TypeError
      else if name = ''__weakref__'' then Inl (AttributeError ''__weakref__'')
      else if name = ''__dict__'' then
        (case v of Raw (JObj kvs) \<Rightarrow> Inr (raw_attrs kvs) | _ \<Rightarrow> Inl TypeError)
      else Inr (AList.update name v self))"

definition getattr :: "attrs \<Rightarrow> string \<Rightarrow> error + pyobj" where
  "getattr self name =
     (case map_of self name of Some v \<Rightarrow> Inr v | None \<Rightarrow> Inl (AttributeError name))"

definition hasattr :: "attrs \<Rightarrow> string \<Rightarrow> bool" where
  "hasattr self name = (map_of self name \<noteq> None)"

text \<open>\<^verbatim>\<open>list(map(f, xs))\<close> over the elements already produced by the iteration.\<close>

fun map_new :: "(pyobj \<Rightarrow> error + pyobj) \<Rightarrow> pyobj list \<Rightarrow> error + pyobj list" where
  "map_new f [] = Inr []"
| "map_new f (x # xs) =
     and_then (f x) (\<lambda>y. and_then (map_new f xs) (\<lambda>ys. Inr (y # ys)))"

section \<open>The response mapper\<close>

text \<open>
  \<^verbatim>\<open>
  class CodeforcesResponse:
      def __init__(self, json: dict):
          for name, value in json.items():
              setattr(self, name, value)
  \<close>
  An \<open>init\<close> function returns the attributes of the instance it initialises;
  \<open>construct c init j\<close> is the call \<^verbatim>\<open>c(j)\<close> of a class whose \<^verbatim>\<open>__init__\<close> is \<open>init\<close>.
  \<open>init_loop\<close> is the loop, with the attributes set so far as its second argument; it
  stops at the first \<^verbatim>\<open>setattr\<close> that raises.
\<close>

fun init_loop :: "(string \<times> pyobj) list \<Rightarrow> attrs \<Rightarrow> error + attrs" where
  "init_loop [] self = Inr self"
| "init_loop ((name, v) # rest) self = and_then (setattr self name v) (init_loop rest)"

definition CodeforcesResponse_init :: "pyobj \<Rightarrow> error + attrs" where
  "CodeforcesResponse_init j = and_then (items j) (\<lambda>kvs. init_loop kvs [])"

definition construct :: "cls \<Rightarrow> (pyobj \<Rightarrow> error + attrs) \<Rightarrow> pyobj \<Rightarrow> error + pyobj" where
  "construct c init j = and_then (init j) (\<lambda>self. Inr (Obj c self))"

text \<open>
  \<^verbatim>\<open>
  class RecentAction(CodeforcesResponse):
      def __init__(self, json: dict):
          super().__init__(json)
          if hasattr(self, 'blogEntry'):
              self.blogEntry = BlogEntry(self.blogEntry)
          if hasattr(self, 'comment'):
              self.comment = Comment(self.comment)
  \<close>
\<close>

definition RecentAction_init :: "pyobj \<Rightarrow> error + attrs" where
  "RecentAction_init j =
     and_then (CodeforcesResponse_init j) (\<lambda>self.
     and_then
       (if hasattr self ''blogEntry'' then
          and_then (getattr self ''blogEntry'') (\<lambda>b.
          and_then (construct BlogEntry CodeforcesResponse_init b) (\<lambda>b'.
          setattr self ''blogEntry'' b'))
        else Inr self) (\<lambda>self.
     if hasattr self ''comment'' then
       and_then (getattr self ''comment'') (\<lambda>c.
       and_then (construct Comment CodeforcesResponse_init c) (\<lambda>c'.
       setattr self ''comment'' c'))
     else Inr self))"

text \<open>
  \<^verbatim>\<open>
  class Party(CodeforcesResponse):
      def __init__(self, json: dict):
          super().__init__(json)
          self.members = list(map(Member, self.members))
  \<close>
\<close>

definition Party_init :: "pyobj \<Rightarrow> error + attrs" where
  "Party_init j =
     and_then (CodeforcesResponse_init j) (\<lambda>self.
     and_then (getattr self ''members'') (\<lambda>m.
     and_then (iter m) (\<lambda>xs.
     and_then (map_new (construct Member CodeforcesResponse_init) xs) (\<lambda>ms.
     setattr self ''members'' (ObjList ms)))))"

text \<open>
  \<^verbatim>\<open>
  class Submission(CodeforcesResponse):
      def __init__(self, json: dict):
          super().__init__(json)
          self.problem = Problem(self.problem)
          self.author = Party(self.author)
  \<close>
\<close>

definition Submission_init :: "pyobj \<Rightarrow> error + attrs" where
  "Submission_init j =
     and_then (CodeforcesResponse_init j) (\<lambda>self.
     and_then (getattr self ''problem'') (\<lambda>p.
     and_then (construct Problem CodeforcesResponse_init p) (\<lambda>p'.
     and_then (setattr self ''problem'' p') (\<lambda>self.
     and_then (getattr self ''author'') (\<lambda>a.
     and_then (construct Party Party_init a) (\<lambda>a'.
     setattr self ''author'' a'))))))"

text \<open>
  \<^verbatim>\<open>
  class Hack(CodeforcesResponse):
      def __init__(self, json: dict):
          super().__init__(json)
          self.hacker = Party(self.hacker)
          self.defender = Party(self.defender)
  \<close>
\<close>

definition Hack_init :: "pyobj \<Rightarrow> error + attrs" where
  "Hack_init j =
     and_then (CodeforcesResponse_init j) (\<lambda>self.
     and_then (getattr self ''hacker'') (\<lambda>h.
     and_then (construct Party Party_init h) (\<lambda>h'.
     and_then (setattr self ''hacker'' h') (\<lambda>self.
     and_then (getattr self ''defender'') (\<lambda>d.
     and_then (construct Party Party_init d) (\<lambda>d'.
     setattr self ''defender'' d'))))))"

text \<open>
  \<^verbatim>\<open>
  class RanklistRow(CodeforcesResponse):
      def __init__(self, json: dict):
          super().__init__(json)
          self.party = Party(self.party)
          self.problemResults = list(map(ProblemResult,
                                         self.problemResults))
  \<close>
\<close>

definition RanklistRow_init :: "pyobj \<Rightarrow> error + attrs" where
  "RanklistRow_init j =
     and_then (CodeforcesResponse_init j) (\<lambda>self.
     and_then (getattr self ''party'') (\<lambda>p.
     and_then (construct Party Party_init p) (\<lambda>p'.
     and_then (setattr self ''party'' p') (\<lambda>self.
     and_then (getattr self ''problemResults'') (\<lambda>rs.
     and_then (iter rs) (\<lambda>xs.
     and_then (map_new (construct ProblemResult CodeforcesResponse_init) xs) (\<lambda>rs'.
     setattr self ''problemResults'' (ObjList rs'))))))))"

text \<open>
  The call \<^verbatim>\<open>c(j)\<close> for any record class \<open>c\<close>: the five classes above have an
  \<^verbatim>\<open>__init__\<close> of their own, the others inherit the one of \<^verbatim>\<open>CodeforcesResponse\<close>.
\<close>

fun init_of :: "cls \<Rightarrow> pyobj \<Rightarrow> error + attrs" where
  "init_of RecentAction = RecentAction_init"
| "init_of Party = Party_init"
| "init_of Submission = Submission_init"
| "init_of Hack = Hack_init"
| "init_of RanklistRow = RanklistRow_init"
| "init_of _ = CodeforcesResponse_init"

definition new :: "cls \<Rightarrow> pyobj \<Rightarrow> error + pyobj" where
  "new c j = construct c (init_of c) j"

section \<open>The request signer\<close>

text \<open>
  What a call reads from outside the program is a parameter of the model: the clock
  (\<^verbatim>\<open>int(time())\<close>), the indices the secure random source draws (\<^verbatim>\<open>SystemRandom().choice\<close>
  returns the element of its argument at a drawn index below the argument's length), the
  digest of the hash library (\<open>sha512_hex s\<close> is
  \<^verbatim>\<open>sha512(s.encode('utf-8')).hexdigest()\<close>) and the remote service, which answers a URL
  with a response whose \<open>json_of\<close> is the parsed body, or \<open>None\<close> when the body does not
  parse. The theorems hold for every such environment.
\<close>

record response =
  ok :: bool
  status_code :: int
  json_of :: "json option"

record env =
  clock :: int
  draw :: "nat \<Rightarrow> nat"
  sha512_hex :: "string \<Rightarrow> string"
  http_request :: "string \<Rightarrow> response"

text \<open>
  The fields \<^verbatim>\<open>_key\<close>, \<^verbatim>\<open>_secret\<close> and \<^verbatim>\<open>_lang\<close> of a \<^verbatim>\<open>CodeforcesAPI\<close> object, and
  then its \<^verbatim>\<open>last_api\<close>: unset before the first request, the response object while a
  request is checked, the parsed body afterwards. \<open>sent\<close> is not a field of the object: it
  lists the URLs requested so far, the one effect of the object on the outside.
\<close>

record credentials =
  key :: "string option"
  secret :: "string option"
  lang :: string

datatype last = Unset | Response response | Parsed json

record api = credentials +
  last_api :: last
  sent :: "string list"

definition ascii_lowercase :: string where
  "ascii_lowercase = ''abcdefghijklmnopqrstuvwxyz''"

definition digits :: string where
  "digits = ''0123456789''"

definition choice :: "env \<Rightarrow> nat \<Rightarrow> string \<Rightarrow> char" where
  "choice e i seq = seq ! (draw e i mod length seq)"

text \<open>
  \<^verbatim>\<open>rand = ''.join(SystemRandom().choice(ascii_lowercase + digits) for i in range(6))\<close>
\<close>

definition rand :: "env \<Rightarrow> string" where
  "rand e = map (\<lambda>i. choice e i (ascii_lowercase @ digits)) [0..<6]"

text \<open>
  \<^verbatim>\<open>
  def _url_api_request(self, method: str, **kwargs):
      kwargs['lang'] = self.lang
      if self._key is not None and self._secret is not None:
          kwargs['time'] = int(time())
          kwargs['apiKey'] = self._key
          rand = ''.join(SystemRandom().choice(ascii_lowercase +
                                               digits) for i in range(6))
          sig = rand + sha512((rand + '/' + method + '?' +
                               self._get_url(**kwargs) + '#' +
                               self._secret).encode('utf-8')).hexdigest()
          kwargs['apiSig'] = sig
      return self._get_url(**kwargs)
  \<close>
  \<open>signature\<close> is the value the source binds to \<^verbatim>\<open>sig\<close>.
\<close>

definition signature :: "env \<Rightarrow> string \<Rightarrow> kwargs \<Rightarrow> string \<Rightarrow> string" where
  "signature e meth kwargs s =
     rand e @ sha512_hex e (rand e @ ''/'' @ meth @ ''?'' @ get_url kwargs @ ''#'' @ s)"

definition url_api_request :: "env \<Rightarrow> 'a credentials_scheme \<Rightarrow> string \<Rightarrow> kwargs \<Rightarrow> string" where
  "url_api_request e self meth kwargs =
     (let kwargs = AList.update ''lang'' (Scalar (PyStr (lang self))) kwargs in
      case key self of
        None \<Rightarrow> get_url kwargs
      | Some k \<Rightarrow>
          (case secret self of
             None \<Rightarrow> get_url kwargs
           | Some s \<Rightarrow>
               (let kwargs = AList.update ''time'' (Scalar (PyInt (clock e))) kwargs;
                    kwargs = AList.update ''apiKey'' (Scalar (PyStr k)) kwargs;
                    sig = signature e meth kwargs s;
                    kwargs = AList.update ''apiSig'' (Scalar (PyStr sig)) kwargs
                in get_url kwargs)))"

section \<open>Transport\<close>

definition api_link :: string where
  "api_link = ''http://codeforces.com/api/''"

text \<open>
  \<^verbatim>\<open>
  def _check_request(self, request):
      if not request.ok:
          raise ConnectionError('Request status \
                                is {}'.format(self.last_api.status_code))
  \<close>
\<close>

definition check_request :: "api \<Rightarrow> response \<Rightarrow> error + unit" where
  "check_request self request =
     (if \<not> ok request then
        (case last_api self of
           Unset \<Rightarrow> Inl (AttributeError ''last_api'')
         | Response r \<Rightarrow> Inl (ConnectionError_status (status_code r))
         | Parsed j \<Rightarrow> Inl (AttributeError ''status_code''))
      else Inr ())"

text \<open>
  \<^verbatim>\<open>
  def request_api(self, method: str, **kwargs):
      self.last_api = http_request(
          self._api_link +
          method + '?' +
          self._url_api_request(method, **kwargs)
      )
      self._check_request(self.last_api)
      self.last_api = self.last_api.json()
      if self.last_api['status'] != 'OK':
          raise ConnectionError('Codeforces API error: \
                                {}', self.last_api['comment'])
      return self.last_api
  \<close>
  The result is the value returned or the exception raised, with the object as the call
  leaves it.
\<close>

definition request_api :: "env \<Rightarrow> api \<Rightarrow> string \<Rightarrow> kwargs \<Rightarrow> (error + json) \<times> api" where
  "request_api e self meth kwargs =
     (let url = api_link @ meth @ ''?'' @ url_api_request e self meth kwargs;
          r = http_request e url;
          self = self\<lparr>last_api := Response r, sent := sent self @ [url]\<rparr>
      in case check_request self r of
           Inl err \<Rightarrow> (Inl err, self)
         | Inr _ \<Rightarrow>
             (case json_of r of
                None \<Rightarrow> (Inl JSONDecodeError, self)
              | Some j \<Rightarrow>
                  (let self = self\<lparr>last_api := Parsed j\<rparr> in
                   case getitem (Raw j) ''status'' of
                     Inl err \<Rightarrow> (Inl err, self)
                   | Inr st \<Rightarrow>
                       if st \<noteq> Raw (JStr ''OK'') then
                         (case getitem (Raw j) ''comment'' of
                            Inl err \<Rightarrow> (Inl err, self)
                          | Inr c \<Rightarrow> (Inl (ConnectionError_comment c), self))
                       else (Inr j, self))))"

text \<open>\<^verbatim>\<open>self.last_api[k]\<close>, as the methods read the answer after a request.\<close>

definition last_api_item :: "api \<Rightarrow> string \<Rightarrow> error + pyobj" where
  "last_api_item self k =
     (case last_api self of
        Parsed j \<Rightarrow> getitem (Raw j) k
      | Response r \<Rightarrow> Inl TypeError
      | Unset \<Rightarrow> Inl (AttributeError ''last_api''))"

section \<open>The method surface\<close>

text \<open>
  Optional arguments whose default is \<^verbatim>\<open>None\<close>, as the values placed in \<^verbatim>\<open>kwargs\<close>.
\<close>

definition opt_int :: "int option \<Rightarrow> pyval" where
  "opt_int x = (case x of None \<Rightarrow> Scalar PyNone | Some i \<Rightarrow> Scalar (PyInt i))"

definition opt_bool :: "bool option \<Rightarrow> pyval" where
  "opt_bool x = (case x of None \<Rightarrow> Scalar PyNone | Some b \<Rightarrow> Scalar (PyBool b))"

definition opt_str :: "string option \<Rightarrow> pyval" where
  "opt_str x = (case x of None \<Rightarrow> Scalar PyNone | Some s \<Rightarrow> Scalar (PyStr s))"

text \<open>
  \<^verbatim>\<open>if isinstance(handles, str): handles = [handles]\<close>, and \<^verbatim>\<open>len(handles)\<close> of an
  argument.
\<close>

definition as_list :: "pyval \<Rightarrow> pyval" where
  "as_list handles = (case handles of Scalar (PyStr s) \<Rightarrow> PyList [PyStr s] | _ \<Rightarrow> handles)"

fun len_arg :: "pyval \<Rightarrow> error + nat" where
  "len_arg (PyList xs) = Inr (length xs)"
| "len_arg (Scalar (PyStr s)) = Inr (length s)"
| "len_arg (Scalar _) = Inl TypeError"

text \<open>
  \<^verbatim>\<open>
  def user_info(self, handles: int):
      if isinstance(handles, str):
          handles = [handles]
      if len(handles) > 10000:
          raise TypeError('handles len is {}. \
                           Maximum: 10000'.format(len(handles)))
      self.request_api('user.info',
                       handles=handles)
      if len(self.last_api['result']) == 1:
          return User(self.last_api['result'][0])
      else:
          return list(map(User, self.last_api['result']))
  \<close>
  \<open>user_info_result\<close> is the part after the request.
\<close>

definition user_info_result :: "api \<Rightarrow> error + pyobj" where
  "user_info_result self =
     and_then (last_api_item self ''result'') (\<lambda>res.
     and_then (py_len res) (\<lambda>n.
     if n = 1 then and_then (getitem0 res) (new User)
     else and_then (iter res) (\<lambda>xs.
          and_then (map_new (new User) xs) (\<lambda>us. Inr (ObjList us)))))"

definition user_info :: "env \<Rightarrow> api \<Rightarrow> pyval \<Rightarrow> (error + pyobj) \<times> api" where
  "user_info e self handles =
     (let handles = as_list handles in
      case len_arg handles of
        Inl err \<Rightarrow> (Inl err, self)
      | Inr n \<Rightarrow>
          if n > 10000 then
            (Inl (ValidationError (''handles len is '' @ str_int (int n) @ ''. ''
                    @ replicate 29 CHR '' '' @ ''Maximum: 10000'')), self)
          else
            (case request_api e self ''user.info'' [(''handles'', handles)] of
               (Inl err, self) \<Rightarrow> (Inl err, self)
             | (Inr _, self) \<Rightarrow> (user_info_result self, self)))"

text \<open>
  \<^verbatim>\<open>
  def contest_standings(self, contestId: int, from_row: int = None,
                        count: int = None, handles: str = None, room: int = None,
                        showUnofficial: bool = None):
      if isinstance(handles, str):
          handles = [handles]
      if handles is not None and len(handles) > 10000:
          raise TypeError('handles len is {}. \
                          Maximum: 10000'.format(len(handles)))
      kwargs = {
          'contestId': contestId,
          'from': from_row,
          'count': count,
          'handles': handles,
          'room': room,
          'showUnofficial': showUnofficial
      }
      self.request_api('contest.standings', **kwargs)
      return [Contest(self.last_api['result']['contest']),
              list(map(Problem, self.last_api['result']['problems'])),
              list(map(RanklistRow, self.last_api['result']['rows']))]
  \<close>
  \<open>contest_standings_result\<close> is the list the last statement builds,
  \<open>contest_standings_request\<close> the part from the dictionary on. The argument \<^verbatim>\<open>count\<close>
  is written \<open>cnt\<close>.
\<close>

definition contest_standings_result :: "api \<Rightarrow> error + pyobj" where
  "contest_standings_result self =
     and_then (last_api_item self ''result'') (\<lambda>res.
     and_then (getitem res ''contest'') (\<lambda>c.
     and_then (new Contest c) (\<lambda>c'.
     and_then (getitem res ''problems'') (\<lambda>ps.
     and_then (iter ps) (\<lambda>xs.
     and_then (map_new (new Problem) xs) (\<lambda>ps'.
     and_then (getitem res ''rows'') (\<lambda>rs.
     and_then (iter rs) (\<lambda>ys.
     and_then (map_new (new RanklistRow) ys) (\<lambda>rs'.
     Inr (ObjList [c', ObjList ps', ObjList rs']))))))))))"

definition contest_standings_request ::
  "env \<Rightarrow> api \<Rightarrow> int \<Rightarrow> int option \<Rightarrow> int option \<Rightarrow> pyval \<Rightarrow> int option \<Rightarrow> bool option
     \<Rightarrow> (error + pyobj) \<times> api" where
  "contest_standings_request e self contestId from_row cnt handles room showUnofficial =
     (let kwargs = [(''contestId'', Scalar (PyInt contestId)),
                    (''from'', opt_int from_row),
                    (''count'', opt_int cnt),
                    (''handles'', handles),
                    (''room'', opt_int room),
                    (''showUnofficial'', opt_bool showUnofficial)]
      in case request_api e self ''contest.standings'' kwargs of
           (Inl err, self) \<Rightarrow> (Inl err, self)
         | (Inr _, self) \<Rightarrow> (contest_standings_result self, self))"

definition contest_standings ::
  "env \<Rightarrow> api \<Rightarrow> int \<Rightarrow> int option \<Rightarrow> int option \<Rightarrow> pyval \<Rightarrow> int option \<Rightarrow> bool option
     \<Rightarrow> (error + pyobj) \<times> api" where
  "contest_standings e self contestId from_row cnt handles room showUnofficial =
     (let handles = as_list handles in
      if handles \<noteq> Scalar PyNone then
        (case len_arg handles of
           Inl err \<Rightarrow> (Inl err, self)
         | Inr n \<Rightarrow>
             if n > 10000 then
               (Inl (ValidationError (''handles len is '' @ str_int (int n) @ ''. ''
                       @ replicate 28 CHR '' '' @ ''Maximum: 10000'')), self)
             else contest_standings_request e self contestId from_row cnt handles room
                    showUnofficial)
      else contest_standings_request e self contestId from_row cnt handles room
             showUnofficial)"

text \<open>
  \<^verbatim>\<open>
  def problemset_recentStatus(self, count: int, problemsetName: str = None):
      if count > 1000:
          raise TypeError('count is {}. Maximim: 1000'.format(count))
      self.request_api('problemset.recentStatus',
                       count=count,
                       problemsetName=problemsetName)
      return list(map(Submission, self.last_api['result']))
  \<close>
\<close>

definition problemset_recentStatus_result :: "api \<Rightarrow> error + pyobj" where
  "problemset_recentStatus_result self =
     and_then (last_api_item self ''result'') (\<lambda>res.
     and_then (iter res) (\<lambda>xs.
     and_then (map_new (new Submission) xs) (\<lambda>ss. Inr (ObjList ss))))"

definition problemset_recentStatus ::
  "env \<Rightarrow> api \<Rightarrow> int \<Rightarrow> string option \<Rightarrow> (error + pyobj) \<times> api" where
  "problemset_recentStatus e self cnt problemsetName =
     (if cnt > 1000 then
        (Inl (ValidationError (''count is '' @ str_int cnt @ ''. Maximim: 1000'')), self)
      else
        (case request_api e self ''problemset.recentStatus''
                [(''count'', Scalar (PyInt cnt)), (''problemsetName'', opt_str problemsetName)] of
           (Inl err, self) \<Rightarrow> (Inl err, self)
         | (Inr _, self) \<Rightarrow> (problemset_recentStatus_result self, self)))"

section \<open>Shapes of raw records\<close>

text \<open>
  What the mapper needs of a raw value, stated on the JSON: a mapping; a sequence the
  interpreter can iterate whose elements are all mappings (a list of mappings, or an empty
  string or an empty dictionary, which iterate to nothing); a mapping with a field of a
  given shape; a mapping in which a field is absent or of a given shape.
\<close>

fun is_mapping :: "pyobj \<Rightarrow> bool" where
  "is_mapping (Raw (JObj kvs)) = True"
| "is_mapping _ = False"

fun seq_of_mappings :: "pyobj \<Rightarrow> bool" where
  "seq_of_mappings (Raw (JArr xs)) = list_all (\<lambda>x. is_mapping (Raw x)) xs"
| "seq_of_mappings (Raw (JStr s)) = (s = [])"
| "seq_of_mappings (Raw (JObj kvs)) = (kvs = [])"
| "seq_of_mappings (ObjList xs) = list_all is_mapping xs"
| "seq_of_mappings _ = False"

fun field_is :: "(pyobj \<Rightarrow> bool) \<Rightarrow> string \<Rightarrow> pyobj \<Rightarrow> bool" where
  "field_is P n (Raw (JObj kvs)) = (case dict_get kvs n of Some v \<Rightarrow> P (Raw v) | None \<Rightarrow> False)"
| "field_is P n _ = False"

fun field_absent_or :: "(pyobj \<Rightarrow> bool) \<Rightarrow> string \<Rightarrow> pyobj \<Rightarrow> bool" where
  "field_absent_or P n (Raw (JObj kvs)) =
     (case dict_get kvs n of Some v \<Rightarrow> P (Raw v) | None \<Rightarrow> True)"
| "field_absent_or P n _ = False"

definition shaped_Party :: "pyobj \<Rightarrow> bool" where
  "shaped_Party j = field_is seq_of_mappings ''members'' j"

fun shaped :: "cls \<Rightarrow> pyobj \<Rightarrow> bool" where
  "shaped Party j = shaped_Party j"
| "shaped Submission j =
     (field_is is_mapping ''problem'' j \<and> field_is shaped_Party ''author'' j)"
| "shaped Hack j =
     (field_is shaped_Party ''hacker'' j \<and> field_is shaped_Party ''defender'' j)"
| "shaped RanklistRow j =
     (field_is shaped_Party ''party'' j \<and> field_is seq_of_mappings ''problemResults'' j)"
| "shaped RecentAction j =
     (field_absent_or is_mapping ''blogEntry'' j \<and> field_absent_or is_mapping ''comment'' j)"
| "shaped _ j = is_mapping j"

text \<open>
  The names under which \<^verbatim>\<open>setattr\<close> does not store an attribute. \<open>ordinary_names kvs\<close>:
  no field of the mapping \<open>kvs\<close> has such a name; \<open>plain_mapping j\<close>: \<open>j\<close> is a mapping
  with ordinary names; \<open>no_reserved j\<close>: no mapping anywhere in \<open>j\<close> has a field of such a
  name.
\<close>

definition reserved :: "string list" where
  "reserved = [''__class__'', ''__dict__'', ''__weakref__'']"

definition ordinary_names :: "(string \<times> 'v) list \<Rightarrow> bool" where
  "ordinary_names kvs = list_all (\<lambda>kv. fst kv \<notin> set reserved) kvs"

fun plain_mapping :: "json \<Rightarrow> bool" where
  "plain_mapping (JObj kvs) = ordinary_names kvs"
| "plain_mapping _ = False"

fun no_reserved :: "json \<Rightarrow> bool" where
  "no_reserved (JObj kvs) = (\<forall>kv \<in> set kvs. fst kv \<notin> set reserved \<and> no_reserved (snd kv))"
| "no_reserved (JArr xs) = (\<forall>x \<in> set xs. no_reserved x)"
| "no_reserved _ = True"

text \<open>\<open>plain v\<close>: the value \<open>v\<close>, where it is raw JSON, has no field of a reserved name.\<close>

fun plain :: "pyobj \<Rightarrow> bool" where
  "plain (Raw j) = no_reserved j"
| "plain _ = True"

text \<open>
  A field that is absent or has a given property, and a field that is present without
  being a mapping.
\<close>

definition absent_or :: "(json \<Rightarrow> bool) \<Rightarrow> json option \<Rightarrow> bool" where
  "absent_or P x = (case x of None \<Rightarrow> True | Some j \<Rightarrow> P j)"

definition present_not_mapping :: "json option \<Rightarrow> bool" where
  "present_not_mapping x = (case x of None \<Rightarrow> False | Some j \<Rightarrow> \<not> is_mapping (Raw j))"

text \<open>The fields a class wraps into records of their own.\<close>

fun wrapped :: "cls \<Rightarrow> string list" where
  "wrapped Party = [''members'']"
| "wrapped Submission = [''problem'', ''author'']"
| "wrapped Hack = [''hacker'', ''defender'']"
| "wrapped RanklistRow = [''party'', ''problemResults'']"
| "wrapped RecentAction = [''blogEntry'', ''comment'']"
| "wrapped _ = []"

text \<open>
  \<open>keeps_fields W kvs self\<close>: the attributes \<open>self\<close> are the fields of the mapping \<open>kvs\<close>,
  the same names in the same order, and every field whose name is not in \<open>W\<close> has its raw
  value. \<open>fields_of j\<close> are the attributes the initialiser of \<^verbatim>\<open>CodeforcesResponse\<close> gives
  an instance built from the mapping \<open>j\<close>.
\<close>

definition keeps_fields :: "string list \<Rightarrow> (string \<times> json) list \<Rightarrow> attrs \<Rightarrow> bool" where
  "keeps_fields W kvs self \<longleftrightarrow>
     map fst self = map fst (as_dict kvs)
     \<and> (\<forall>n. n \<notin> set W \<longrightarrow> map_of self n = map_option Raw (dict_get kvs n))"

fun fields_of :: "json \<Rightarrow> attrs" where
  "fields_of (JObj kvs) = raw_attrs kvs"
| "fields_of _ = []"

section \<open>A fixed environment for evaluation\<close>

text \<open>
  To evaluate the signer at a concrete input, the draws are fixed so that the nonce is
  \<open>''000000''\<close> (\<open>mixed_draws\<close> are other draws, two of them beyond the alphabet's length), and the digest is left symbolic: \<open>marked_digest s\<close> writes the hashed
  text between two marks, so that an evaluated query shows which text was hashed. The
  service of the fixed environment answers nothing; an evaluation that needs an answer
  replaces it by \<open>answer j\<close>, the service that answers every URL with the body \<open>j\<close>. No
  general theorem depends on any of them.
\<close>

definition zero_draws :: "nat \<Rightarrow> nat" where
  "zero_draws i = 26"

definition mixed_draws :: "nat \<Rightarrow> nat" where
  "mixed_draws i = (if i < 6 then [0, 25, 26, 35, 52, 67] ! i else 0)"

definition marked_digest :: "string \<Rightarrow> string" where
  "marked_digest s = ''<'' @ s @ ''>''"

definition no_service :: "string \<Rightarrow> response" where
  "no_service url = \<lparr>ok = False, status_code = 503, json_of = None\<rparr>"

definition answer :: "json \<Rightarrow> string \<Rightarrow> response" where
  "answer j url = \<lparr>ok = True, status_code = 200, json_of = Some j\<rparr>"

definition fixed_env :: env where
  "fixed_env = \<lparr>clock = 1700000000, draw = zero_draws, sha512_hex = marked_digest,
                 http_request = no_service\<rparr>"

section \<open>Properties of the encoder\<close>

lemma to_http_spec: "to_http k v = k @ ''='' @ spec_value v"
  by (cases v) (simp_all add: spec_value_def)

lemma collect_spec: "collect kw lst = lst @ spec_pairs kw"
  by (induction kw arbitrary: lst) (auto simp: spec_pairs_def to_http_spec)

lemma collect_pairs: "collect kw [] = spec_pairs kw"
  by (simp add: collect_spec)

lemma mset_spec_pairs_eq:
  "mset (spec_pairs kw) =
     image_mset (\<lambda>(k, v). k @ ''='' @ spec_value v)
       (filter_mset (\<lambda>(k, v). v \<noteq> Scalar PyNone) (mset kw))"
  by (simp add: spec_pairs_def)

lemma mset_spec_pairs: "mset kw' = mset kw \<Longrightarrow> mset (spec_pairs kw') = mset (spec_pairs kw)"
  by (simp only: mset_spec_pairs_eq)

lemma sort_cong_mset:
  fixes xs ys :: "'a::linorder list"
  assumes "mset xs = mset ys"
  shows "sort xs = sort ys"
proof (rule properties_for_sort)
  show "mset (sort ys) = mset xs"
    by (simp add: assms)
  show "sorted (sort ys)"
    by simp
qed

text \<open>
  C2. For every parameter mapping the encoder returns the ampersand-join of the
  \<open>key=value\<close> pair strings in which a parameter whose value is \<^verbatim>\<open>None\<close> is dropped, a
  list value is the semicolon-join of the string forms of its elements, a scalar value is
  its string form, and the pair strings are in ascending order: the encoder of the code is
  the encoder of the specification, its pair list is sorted, and it is a rearrangement of
  the specified pairs.
\<close>

theorem get_url_is_spec_encode:
  "get_url kw = spec_encode kw
   \<and> get_url kw = join ''&'' (sorted_str_kwargs kw)
   \<and> sorted (sorted_str_kwargs kw)
   \<and> mset (sorted_str_kwargs kw) = mset (spec_pairs kw)"
  by (simp add: get_url_def spec_encode_def sorted_str_kwargs_def collect_pairs)

theorem get_url_is_spec_encode_witness:
  "get_url [(''contestId'', Scalar (PyInt 566)), (''from'', Scalar PyNone),
            (''handles'', PyList [PyStr ''tourist'', PyStr ''Petr'']),
            (''showUnofficial'', Scalar (PyBool True)), (''count'', Scalar (PyInt (- 1)))]
     = ''contestId=566&count=-1&handles=tourist;Petr&showUnofficial=True''"
proof -
  let ?kw = "[(''contestId'', Scalar (PyInt 566)), (''from'', Scalar PyNone),
            (''handles'', PyList [PyStr ''tourist'', PyStr ''Petr'']),
            (''showUnofficial'', Scalar (PyBool True)), (''count'', Scalar (PyInt (- 1)))]"
  from get_url_is_spec_encode [of ?kw] have "get_url ?kw = spec_encode ?kw"
    by (rule conjunct1)
  also have "spec_encode ?kw = ''contestId=566&count=-1&handles=tourist;Petr&showUnofficial=True''"
    by code_simp
  finally show ?thesis .
qed

text \<open>
  C4. The encoder gives the same string on every rearrangement of the entries of a
  parameter mapping.
\<close>

theorem get_url_permutation_invariant:
  assumes "mset kw' = mset kw"
  shows "get_url kw' = get_url kw"
proof -
  have "sort (spec_pairs kw') = sort (spec_pairs kw)"
    using assms by (intro sort_cong_mset mset_spec_pairs)
  then show ?thesis
    by (simp add: get_url_def sorted_str_kwargs_def collect_pairs)
qed

theorem get_url_permutation_invariant_witness:
  "mset [(''lang'', Scalar (PyStr ''en'')), (''count'', Scalar (PyInt 5)), (''from'', Scalar PyNone)]
     = mset [(''from'', Scalar PyNone), (''lang'', Scalar (PyStr ''en'')), (''count'', Scalar (PyInt 5))]
   \<and> get_url [(''lang'', Scalar (PyStr ''en'')), (''count'', Scalar (PyInt 5)), (''from'', Scalar PyNone)]
     = get_url [(''from'', Scalar PyNone), (''lang'', Scalar (PyStr ''en'')), (''count'', Scalar (PyInt 5))]"
proof -
  have h: "mset [(''lang'', Scalar (PyStr ''en'')), (''count'', Scalar (PyInt 5)), (''from'', Scalar PyNone)]
     = mset [(''from'', Scalar PyNone), (''lang'', Scalar (PyStr ''en'')), (''count'', Scalar (PyInt 5))]"
    by (simp add: add_mset_commute)
  from h get_url_permutation_invariant [OF h] show ?thesis
    by (rule conjI)
qed

section \<open>Properties of the signer\<close>

lemma join_contains: "x \<in> set xs \<Longrightarrow> \<exists>pre post. join sep xs = pre @ x @ post"
proof (induction sep xs rule: join.induct)
  case (1 sep)
  then show ?case by simp
next
  case (2 sep y)
  then have "join sep [y] = [] @ x @ []" by simp
  then show ?case by blast
next
  case (3 sep y z zs)
  show ?case
  proof (cases "x = y")
    case True
    then have "join sep (y # z # zs) = [] @ x @ (sep @ join sep (z # zs))" by simp
    then show ?thesis by blast
  next
    case False
    with 3 obtain pre post where "join sep (z # zs) = pre @ x @ post" by auto
    then have "join sep (y # z # zs) = (y @ sep @ pre) @ x @ post" by simp
    then show ?thesis by blast
  qed
qed

lemma set_sorted_str_kwargs: "set (sorted_str_kwargs kw) = set (spec_pairs kw)"
  by (simp add: sorted_str_kwargs_def collect_pairs)

lemma pair_in_sorted_str_kwargs:
  assumes "map_of kw k = Some v" and "v \<noteq> Scalar PyNone"
  shows "to_http k v \<in> set (sorted_str_kwargs kw)"
proof -
  from assms(1) have "(k, v) \<in> set kw" by (rule map_of_SomeD)
  with assms(2) have "(k, v) \<in> set (filter (\<lambda>(k, v). v \<noteq> Scalar PyNone) kw)" by simp
  then have "(\<lambda>(k, v). k @ ''='' @ spec_value v) (k, v) \<in> set (spec_pairs kw)"
    unfolding spec_pairs_def set_map by (rule imageI)
  then show ?thesis
    by (simp add: set_sorted_str_kwargs to_http_spec)
qed

lemma length_rand: "length (rand e) = 6"
  by (simp add: rand_def)

lemma choice_in_seq: "seq \<noteq> [] \<Longrightarrow> choice e i seq \<in> set seq"
  by (simp add: choice_def)

lemma set_rand: "set (rand e) \<subseteq> set (ascii_lowercase @ digits)"
proof
  fix c
  assume "c \<in> set (rand e)"
  then obtain i where c: "c = choice e i (ascii_lowercase @ digits)"
    unfolding rand_def by auto
  have "ascii_lowercase @ digits \<noteq> []"
    by (simp add: digits_def)
  then show "c \<in> set (ascii_lowercase @ digits)"
    unfolding c by (rule choice_in_seq)
qed

lemma length_alphabet: "length (ascii_lowercase @ digits) = 36"
  by (simp add: ascii_lowercase_def digits_def)

lemma rand_by_draws:
  "rand e = map (\<lambda>i. (ascii_lowercase @ digits) ! (draw e i mod 36)) [0..<6]"
  unfolding rand_def choice_def length_alphabet ..

lemma rand_any_nonce:
  assumes "length n = 6" and "set n \<subseteq> set (ascii_lowercase @ digits)"
  shows "\<exists>d. rand (e\<lparr>draw := d\<rparr>) = n"
proof -
  have "\<forall>i. \<exists>k. i < 6 \<longrightarrow> k < 36 \<and> (ascii_lowercase @ digits) ! k = n ! i"
  proof (intro allI)
    fix i
    show "\<exists>k. i < 6 \<longrightarrow> k < 36 \<and> (ascii_lowercase @ digits) ! k = n ! i"
    proof (cases "i < 6")
      case True
      with assms have "n ! i \<in> set (ascii_lowercase @ digits)"
        by (metis nth_mem subsetD)
      then obtain k where "k < length (ascii_lowercase @ digits)"
          and "(ascii_lowercase @ digits) ! k = n ! i"
        unfolding in_set_conv_nth by blast
      then show ?thesis
        unfolding length_alphabet by blast
    next
      case False
      then show ?thesis by simp
    qed
  qed
  then obtain d where d: "\<And>i. i < 6 \<Longrightarrow> d i < 36 \<and> (ascii_lowercase @ digits) ! d i = n ! i"
    by metis
  have "rand (e\<lparr>draw := d\<rparr>) = n"
  proof (rule nth_equalityI)
    show "length (rand (e\<lparr>draw := d\<rparr>)) = length n"
      by (simp add: length_rand assms(1))
    fix i
    assume "i < length (rand (e\<lparr>draw := d\<rparr>))"
    then have i: "i < 6"
      by (simp add: length_rand)
    then have "rand (e\<lparr>draw := d\<rparr>) ! i = (ascii_lowercase @ digits) ! (d i mod 36)"
      by (simp add: rand_by_draws)
    also have "\<dots> = n ! i"
      using d [OF i] by simp
    finally show "rand (e\<lparr>draw := d\<rparr>) ! i = n ! i" .
  qed
  then show ?thesis by blast
qed

lemma update_fresh: "k \<notin> fst ` set al \<Longrightarrow> AList.update k v al = al @ [(k, v)]"
  by (induction al) auto

lemma sort_snoc:
  fixes xs :: "'a::linorder list"
  shows "sort (xs @ [x]) = insort x (sort xs)"
  by (rule properties_for_sort) (simp_all add: sorted_insort)

lemma sorted_str_kwargs_fresh:
  assumes "k \<notin> fst ` set kw" and "v \<noteq> Scalar PyNone"
  shows "sorted_str_kwargs (AList.update k v kw) = insort (to_http k v) (sorted_str_kwargs kw)"
proof -
  have "collect (kw @ [(k, v)]) [] = collect kw [] @ [to_http k v]"
    using assms(2) by (simp add: collect_pairs spec_pairs_def to_http_spec)
  then show ?thesis
    by (simp add: sorted_str_kwargs_def update_fresh [OF assms(1)] sort_snoc)
qed

text \<open>
  C1. With a key and a secret configured, the query the signer builds is the join of a
  pair list that contains \<open>apiSig=\<close> followed by the signature, so the pair occurs in the
  query; the signature is the nonce followed by the digest of nonce, slash, method,
  question mark, the canonical encoding of the parameters with \<open>lang\<close>, \<open>time\<close> and
  \<open>apiKey\<close> set, hash sign, secret; the pairs of \<open>lang\<close>, \<open>time\<close> and \<open>apiKey\<close> are
  among the encoded ones. The nonce is what the random source draws: it has six
  characters, the character at each place is the one at the index drawn for that place
  among the 36 lowercase letters and digits, and every string of six such characters is
  the nonce for some draws.
\<close>

theorem url_api_request_signature:
  assumes "key self = Some k" and "secret self = Some s"
  shows
    "let base = AList.update ''apiKey'' (Scalar (PyStr k))
                  (AList.update ''time'' (Scalar (PyInt (clock e)))
                    (AList.update ''lang'' (Scalar (PyStr (lang self))) kw));
         sig = rand e @ sha512_hex e (rand e @ ''/'' @ meth @ ''?'' @ get_url base @ ''#'' @ s);
         pairs = sorted_str_kwargs (AList.update ''apiSig'' (Scalar (PyStr sig)) base)
     in url_api_request e self meth kw = join ''&'' pairs
        \<and> ''apiSig='' @ sig \<in> set pairs
        \<and> (\<exists>pre post. url_api_request e self meth kw = pre @ (''apiSig='' @ sig) @ post)
        \<and> length (rand e) = 6
        \<and> set (rand e) \<subseteq> set (ascii_lowercase @ digits)
        \<and> rand e = map (\<lambda>i. (ascii_lowercase @ digits) ! (draw e i mod 36)) [0..<6]
        \<and> (\<forall>n. length n = 6 \<and> set n \<subseteq> set (ascii_lowercase @ digits)
               \<longrightarrow> (\<exists>d. rand (e\<lparr>draw := d\<rparr>) = n))
        \<and> ''lang='' @ lang self \<in> set (sorted_str_kwargs base)
        \<and> ''time='' @ str_int (clock e) \<in> set (sorted_str_kwargs base)
        \<and> ''apiKey='' @ k \<in> set (sorted_str_kwargs base)"
proof -
  define base where "base = AList.update ''apiKey'' (Scalar (PyStr k))
                  (AList.update ''time'' (Scalar (PyInt (clock e)))
                    (AList.update ''lang'' (Scalar (PyStr (lang self))) kw))"
  define sig where
    "sig = rand e @ sha512_hex e (rand e @ ''/'' @ meth @ ''?'' @ get_url base @ ''#'' @ s)"
  define pairs where "pairs = sorted_str_kwargs (AList.update ''apiSig'' (Scalar (PyStr sig)) base)"
  have url: "url_api_request e self meth kw = join ''&'' pairs"
    using assms
    by (simp add: url_api_request_def signature_def get_url_def pairs_def sig_def base_def Let_def)
  have "map_of (AList.update ''apiSig'' (Scalar (PyStr sig)) base) ''apiSig'' = Some (Scalar (PyStr sig))"
    by (simp add: update_conv')
  then have "to_http ''apiSig'' (Scalar (PyStr sig)) \<in> set pairs"
    unfolding pairs_def by (rule pair_in_sorted_str_kwargs) simp
  then have mem: "''apiSig='' @ sig \<in> set pairs"
    by simp
  from join_contains [OF mem] obtain pre post
    where "join ''&'' pairs = pre @ (''apiSig='' @ sig) @ post"
    by blast
  with url have occ: "\<exists>pre post. url_api_request e self meth kw = pre @ (''apiSig='' @ sig) @ post"
    by auto
  have "map_of base ''lang'' = Some (Scalar (PyStr (lang self)))"
    by (simp add: base_def update_conv')
  then have "to_http ''lang'' (Scalar (PyStr (lang self))) \<in> set (sorted_str_kwargs base)"
    by (rule pair_in_sorted_str_kwargs) simp
  then have p1: "''lang='' @ lang self \<in> set (sorted_str_kwargs base)"
    by simp
  have "map_of base ''time'' = Some (Scalar (PyInt (clock e)))"
    by (simp add: base_def update_conv')
  then have "to_http ''time'' (Scalar (PyInt (clock e))) \<in> set (sorted_str_kwargs base)"
    by (rule pair_in_sorted_str_kwargs) simp
  then have p2: "''time='' @ str_int (clock e) \<in> set (sorted_str_kwargs base)"
    by simp
  have "map_of base ''apiKey'' = Some (Scalar (PyStr k))"
    by (simp add: base_def update_conv')
  then have "to_http ''apiKey'' (Scalar (PyStr k)) \<in> set (sorted_str_kwargs base)"
    by (rule pair_in_sorted_str_kwargs) simp
  then have p3: "''apiKey='' @ k \<in> set (sorted_str_kwargs base)"
    by simp
  have any: "\<forall>n. length n = 6 \<and> set n \<subseteq> set (ascii_lowercase @ digits)
               \<longrightarrow> (\<exists>d. rand (e\<lparr>draw := d\<rparr>) = n)"
    using rand_any_nonce by blast
  from url mem occ length_rand set_rand rand_by_draws any p1 p2 p3 show ?thesis
    unfolding Let_def base_def [symmetric] sig_def [symmetric] pairs_def [symmetric]
    by blast
qed

theorem url_api_request_signature_witness:
  "key \<lparr>key = Some ''ABC'', secret = Some ''xyz'', lang = ''en''\<rparr> = Some ''ABC''
   \<and> secret \<lparr>key = Some ''ABC'', secret = Some ''xyz'', lang = ''en''\<rparr> = Some ''xyz''
   \<and> url_api_request fixed_env \<lparr>key = Some ''ABC'', secret = Some ''xyz'', lang = ''en''\<rparr>
         ''user.info'' [(''handles'', PyList [PyStr ''tourist''])]
       = ''apiKey=ABC&apiSig=000000<000000/user.info?apiKey=ABC&handles=tourist&lang=en&time=1700000000#xyz>&handles=tourist&lang=en&time=1700000000''
   \<and> rand fixed_env = ''000000''
   \<and> rand (fixed_env\<lparr>draw := mixed_draws\<rparr>) = ''az09q5''"
proof -
  have h1: "key \<lparr>key = Some ''ABC'', secret = Some ''xyz'', lang = ''en''\<rparr> = Some ''ABC''"
    by simp
  have h2: "secret \<lparr>key = Some ''ABC'', secret = Some ''xyz'', lang = ''en''\<rparr> = Some ''xyz''"
    by simp
  note t = url_api_request_signature [OF h1 h2, where e = fixed_env and meth = "''user.info''"
      and kw = "[(''handles'', PyList [PyStr ''tourist''])]"]
  note t' = url_api_request_signature [OF h1 h2, where e = "fixed_env\<lparr>draw := mixed_draws\<rparr>"]
  from t have "rand fixed_env
      = map (\<lambda>i. (ascii_lowercase @ digits) ! (draw fixed_env i mod 36)) [0..<6]"
    unfolding Let_def by blast
  also have "\<dots> = ''000000''"
    by code_simp
  finally have n1: "rand fixed_env = ''000000''" .
  from t' have "rand (fixed_env\<lparr>draw := mixed_draws\<rparr>)
      = map (\<lambda>i. (ascii_lowercase @ digits) ! (draw (fixed_env\<lparr>draw := mixed_draws\<rparr>) i mod 36))
          [0..<6]"
    unfolding Let_def by blast
  also have "\<dots> = ''az09q5''"
    by code_simp
  finally have n2: "rand (fixed_env\<lparr>draw := mixed_draws\<rparr>) = ''az09q5''" .
  from t have "url_api_request fixed_env \<lparr>key = Some ''ABC'', secret = Some ''xyz'', lang = ''en''\<rparr>
         ''user.info'' [(''handles'', PyList [PyStr ''tourist''])]
       = join ''&'' (sorted_str_kwargs (AList.update ''apiSig'' (Scalar (PyStr
           (rand fixed_env @ sha512_hex fixed_env (rand fixed_env @ ''/'' @ ''user.info'' @ ''?'' @
              get_url (AList.update ''apiKey'' (Scalar (PyStr ''ABC''))
                  (AList.update ''time'' (Scalar (PyInt (clock fixed_env)))
                    (AList.update ''lang'' (Scalar (PyStr ''en'')) [(''handles'', PyList [PyStr ''tourist''])])))
               @ ''#'' @ ''xyz''))))
           (AList.update ''apiKey'' (Scalar (PyStr ''ABC''))
                  (AList.update ''time'' (Scalar (PyInt (clock fixed_env)))
                    (AList.update ''lang'' (Scalar (PyStr ''en'')) [(''handles'', PyList [PyStr ''tourist''])])))))"
    unfolding Let_def by simp
  also have "\<dots> = ''apiKey=ABC&apiSig=000000<000000/user.info?apiKey=ABC&handles=tourist&lang=en&time=1700000000#xyz>&handles=tourist&lang=en&time=1700000000''"
    by code_simp
  finally show ?thesis using h1 h2 n1 n2 by blast
qed

text \<open>
  C10. When the key or the secret is \<^verbatim>\<open>None\<close>, the signer returns the canonical
  encoding of the method parameters with \<open>lang\<close> set and nothing else: the same string,
  in every environment, as with neither configured.
\<close>

theorem url_api_request_unsigned:
  assumes "key self = None \<or> secret self = None"
  shows "url_api_request e self meth kw
           = get_url (AList.update ''lang'' (Scalar (PyStr (lang self))) kw)
         \<and> url_api_request e self meth kw
           = url_api_request e' (self\<lparr>key := None, secret := None\<rparr>) meth kw"
  using assms
  by (auto simp: url_api_request_def Let_def split: option.splits)

theorem url_api_request_unsigned_witness:
  "secret \<lparr>key = Some ''ABC'', secret = None, lang = ''en''\<rparr> = None
   \<and> url_api_request fixed_env \<lparr>key = Some ''ABC'', secret = None, lang = ''en''\<rparr>
         ''user.info'' [(''handles'', PyList [PyStr ''tourist''])] = ''handles=tourist&lang=en''
   \<and> key \<lparr>key = None, secret = Some ''xyz'', lang = ''ru''\<rparr> = None
   \<and> url_api_request fixed_env \<lparr>key = None, secret = Some ''xyz'', lang = ''ru''\<rparr>
         ''user.info'' [(''handles'', PyList [PyStr ''tourist''])] = ''handles=tourist&lang=ru''"
proof -
  have h1: "key \<lparr>key = Some ''ABC'', secret = None, lang = ''en''\<rparr> = None
            \<or> secret \<lparr>key = Some ''ABC'', secret = None, lang = ''en''\<rparr> = None"
    by simp
  have h2: "key \<lparr>key = None, secret = Some ''xyz'', lang = ''ru''\<rparr> = None
            \<or> secret \<lparr>key = None, secret = Some ''xyz'', lang = ''ru''\<rparr> = None"
    by simp
  have e1: "get_url (AList.update ''lang'' (Scalar (PyStr ''en''))
              [(''handles'', PyList [PyStr ''tourist''])]) = ''handles=tourist&lang=en''"
    by code_simp
  have e2: "get_url (AList.update ''lang'' (Scalar (PyStr ''ru''))
              [(''handles'', PyList [PyStr ''tourist''])]) = ''handles=tourist&lang=ru''"
    by code_simp
  from url_api_request_unsigned [OF h1, where e = fixed_env and meth = "''user.info''"
      and kw = "[(''handles'', PyList [PyStr ''tourist''])]"]
    url_api_request_unsigned [OF h2, where e = fixed_env and meth = "''user.info''"
      and kw = "[(''handles'', PyList [PyStr ''tourist''])]"]
    e1 e2
  show ?thesis by simp
qed

text \<open>
  C3, as the specification states it, fails: with credentials configured the query is not
  the canonical encoding of the other parameters followed by the \<open>apiSig\<close> pair. For key
  \<open>ABC\<close>, secret \<open>xyz\<close>, method \<open>user.info\<close> and the one parameter \<open>handles\<close>, the
  \<open>apiSig\<close> pair stands second, between \<open>apiKey\<close> and \<open>handles\<close>.
\<close>

theorem signature_appended_counterexample:
  "url_api_request fixed_env \<lparr>key = Some ''ABC'', secret = Some ''xyz'', lang = ''en''\<rparr>
         ''user.info'' [(''handles'', PyList [PyStr ''tourist''])]
   \<noteq> get_url [(''handles'', PyList [PyStr ''tourist'']), (''lang'', Scalar (PyStr ''en'')),
               (''time'', Scalar (PyInt 1700000000)), (''apiKey'', Scalar (PyStr ''ABC''))]
       @ ''&'' @ ''apiSig='' @
       signature fixed_env ''user.info''
         [(''handles'', PyList [PyStr ''tourist'']), (''lang'', Scalar (PyStr ''en'')),
          (''time'', Scalar (PyInt 1700000000)), (''apiKey'', Scalar (PyStr ''ABC''))] ''xyz''"
  by code_simp

text \<open>
  The place of the pair in that query does not depend on the environment: for every clock,
  every nonce drawn and every digest function the query begins with the \<open>apiKey\<close> pair
  followed by the \<open>apiSig\<close> pair.
\<close>

lemma signature_position_any_env:
  "take 17 (url_api_request e \<lparr>key = Some ''ABC'', secret = Some ''xyz'', lang = ''en''\<rparr>
        ''user.info'' [(''handles'', PyList [PyStr ''tourist''])]) = ''apiKey=ABC&apiSig''"
  by (simp add: url_api_request_def get_url_def sorted_str_kwargs_def Let_def)

text \<open>
  C3, amended. With credentials configured, the signature is computed over the canonical
  encoding of the parameters with \<open>lang\<close>, \<open>time\<close> and \<open>apiKey\<close> set; the \<open>apiSig\<close>
  pair is then added to the parameters and encoded with them, so it is sorted together
  with the other pairs: for a parameter mapping that has no \<open>apiSig\<close> entry of its own,
  the final query is the join of the sorted pair list into which the \<open>apiSig\<close> pair has
  been inserted at its place in the order.
\<close>

theorem url_api_request_signature_sorted:
  assumes "key self = Some k" and "secret self = Some s" and "''apiSig'' \<notin> fst ` set kw"
  shows
    "let base = AList.update ''apiKey'' (Scalar (PyStr k))
                  (AList.update ''time'' (Scalar (PyInt (clock e)))
                    (AList.update ''lang'' (Scalar (PyStr (lang self))) kw));
         sig = rand e @ sha512_hex e (rand e @ ''/'' @ meth @ ''?'' @ get_url base @ ''#'' @ s)
     in url_api_request e self meth kw
          = join ''&'' (insort (''apiSig='' @ sig) (sorted_str_kwargs base))
        \<and> sorted (insort (''apiSig='' @ sig) (sorted_str_kwargs base))
        \<and> get_url base = join ''&'' (sorted_str_kwargs base)"
proof -
  define base where "base = AList.update ''apiKey'' (Scalar (PyStr k))
                  (AList.update ''time'' (Scalar (PyInt (clock e)))
                    (AList.update ''lang'' (Scalar (PyStr (lang self))) kw))"
  define sig where
    "sig = rand e @ sha512_hex e (rand e @ ''/'' @ meth @ ''?'' @ get_url base @ ''#'' @ s)"
  have fresh: "''apiSig'' \<notin> fst ` set base"
    using assms(3) by (simp add: base_def dom_update)
  have "url_api_request e self meth kw
          = join ''&'' (sorted_str_kwargs (AList.update ''apiSig'' (Scalar (PyStr sig)) base))"
    using assms(1,2)
    by (simp add: url_api_request_def signature_def get_url_def sig_def base_def Let_def)
  also have "sorted_str_kwargs (AList.update ''apiSig'' (Scalar (PyStr sig)) base)
          = insort (to_http ''apiSig'' (Scalar (PyStr sig))) (sorted_str_kwargs base)"
    using fresh by (rule sorted_str_kwargs_fresh) simp
  finally have url: "url_api_request e self meth kw
          = join ''&'' (insort (''apiSig='' @ sig) (sorted_str_kwargs base))"
    by simp
  have srt: "sorted (insort (''apiSig='' @ sig) (sorted_str_kwargs base))"
    by (simp add: sorted_str_kwargs_def sorted_insort)
  from url srt show ?thesis
    unfolding Let_def base_def [symmetric] sig_def [symmetric]
    by (simp add: get_url_def)
qed

theorem url_api_request_signature_sorted_witness:
  "key \<lparr>key = Some ''ABC'', secret = Some ''xyz'', lang = ''en''\<rparr> = Some ''ABC''
   \<and> secret \<lparr>key = Some ''ABC'', secret = Some ''xyz'', lang = ''en''\<rparr> = Some ''xyz''
   \<and> ''apiSig'' \<notin> fst ` set [(''contestId'', Scalar (PyInt 566)), (''from'', Scalar (PyInt 1)),
          (''count'', Scalar PyNone), (''showUnofficial'', Scalar (PyBool True))]
   \<and> url_api_request fixed_env \<lparr>key = Some ''ABC'', secret = Some ''xyz'', lang = ''en''\<rparr>
         ''contest.standings''
         [(''contestId'', Scalar (PyInt 566)), (''from'', Scalar (PyInt 1)),
          (''count'', Scalar PyNone), (''showUnofficial'', Scalar (PyBool True))]
       = join ''&''
          [''apiKey=ABC'',
           ''apiSig=000000<000000/contest.standings?apiKey=ABC&contestId=566&from=1&lang=en&showUnofficial=True&time=1700000000#xyz>'',
           ''contestId=566'', ''from=1'', ''lang=en'', ''showUnofficial=True'', ''time=1700000000'']"
proof -
  let ?c = "\<lparr>key = Some ''ABC'', secret = Some ''xyz'', lang = ''en''\<rparr>"
  let ?kw = "[(''contestId'', Scalar (PyInt 566)), (''from'', Scalar (PyInt 1)),
          (''count'', Scalar PyNone), (''showUnofficial'', Scalar (PyBool True))]"
  let ?base = "AList.update ''apiKey'' (Scalar (PyStr ''ABC''))
                  (AList.update ''time'' (Scalar (PyInt (clock fixed_env)))
                    (AList.update ''lang'' (Scalar (PyStr (lang ?c))) ?kw))"
  have h1: "key ?c = Some ''ABC''"
    by simp
  have h2: "secret ?c = Some ''xyz''"
    by simp
  have h3: "''apiSig'' \<notin> fst ` set ?kw"
    by simp
  have ev: "insort (''apiSig='' @ rand fixed_env @ sha512_hex fixed_env (rand fixed_env @ ''/'' @
               ''contest.standings'' @ ''?'' @ get_url ?base @ ''#'' @ ''xyz''))
             (sorted_str_kwargs ?base)
          = [''apiKey=ABC'',
           ''apiSig=000000<000000/contest.standings?apiKey=ABC&contestId=566&from=1&lang=en&showUnofficial=True&time=1700000000#xyz>'',
           ''contestId=566'', ''from=1'', ''lang=en'', ''showUnofficial=True'', ''time=1700000000'']"
    by code_simp
  note t = url_api_request_signature_sorted [OF h1 h2 h3, where e = fixed_env
      and meth = "''contest.standings''", unfolded Let_def, THEN conjunct1]
  have "url_api_request fixed_env ?c ''contest.standings'' ?kw
       = join ''&''
          [''apiKey=ABC'',
           ''apiSig=000000<000000/contest.standings?apiKey=ABC&contestId=566&from=1&lang=en&showUnofficial=True&time=1700000000#xyz>'',
           ''contestId=566'', ''from=1'', ''lang=en'', ''showUnofficial=True'', ''time=1700000000'']"
    by (simp only: t ev)
  with h1 h2 h3 show ?thesis by blast
qed

section \<open>Properties of the response mapper\<close>

lemma and_then_Inr_iff:
  "and_then m f = Inr y \<longleftrightarrow> (\<exists>x. m = Inr x \<and> f x = Inr y)"
  by (cases m) (simp_all add: and_then_def)

lemma and_then_Inl_iff:
  "and_then m f = Inl err \<longleftrightarrow> m = Inl err \<or> (\<exists>x. m = Inr x \<and> f x = Inl err)"
  by (cases m) (simp_all add: and_then_def)

lemma and_then_simps [simp]:
  "and_then (Inl err) f = Inl err"
  "and_then (Inr x) f = f x"
  by (simp_all add: and_then_def)

lemma and_then_assoc:
  "and_then (and_then m f) g = and_then m (\<lambda>x. and_then (f x) g)"
  by (cases m) simp_all

lemma and_then_fails: "(\<exists>err. m = Inl err) \<Longrightarrow> \<exists>err. and_then m f = Inl err"
  by auto

subsection \<open>The dictionary of a member list\<close>

lemma distinct_fold_update:
  "distinct (map fst d) \<Longrightarrow> distinct (map fst (fold (\<lambda>(k, v) d. AList.update k v d) kvs d))"
  by (induction kvs arbitrary: d) (auto simp: distinct_update)

lemma distinct_as_dict: "distinct (map fst (as_dict kvs))"
  by (simp add: as_dict_def distinct_fold_update)

lemma fold_update_nonempty:
  "d \<noteq> [] \<Longrightarrow> fold (\<lambda>(k, v) d. AList.update k v d) kvs d \<noteq> []"
proof (induction kvs arbitrary: d)
  case Nil
  then show ?case by simp
next
  case (Cons x kvs)
  have "AList.update (fst x) (snd x) d \<noteq> []"
    by (rule update_nonempty)
  then have "fold (\<lambda>(k, v) d. AList.update k v d) kvs (AList.update (fst x) (snd x) d) \<noteq> []"
    by (rule Cons.IH)
  then show ?case
    by (simp add: case_prod_unfold)
qed

lemma as_dict_Nil_iff: "as_dict kvs = [] \<longleftrightarrow> kvs = []"
proof (cases kvs)
  case Nil
  then show ?thesis by (simp add: as_dict_def)
next
  case (Cons x xs)
  have "fold (\<lambda>(k, v) d. AList.update k v d) xs (AList.update (fst x) (snd x) []) \<noteq> []"
    by (rule fold_update_nonempty) simp
  then show ?thesis
    by (simp add: Cons as_dict_def case_prod_unfold)
qed

lemma set_update_subset: "set (AList.update k v d) \<subseteq> insert (k, v) (set d)"
  by (induction d) auto

lemma set_fold_update_subset:
  "set (fold (\<lambda>(k, v) d. AList.update k v d) kvs d) \<subseteq> set d \<union> set kvs"
proof (induction kvs arbitrary: d)
  case Nil
  then show ?case by simp
next
  case (Cons x kvs)
  have "set (fold (\<lambda>(k, v) d. AList.update k v d) kvs (AList.update (fst x) (snd x) d))
          \<subseteq> set (AList.update (fst x) (snd x) d) \<union> set kvs"
    by (rule Cons.IH)
  also have "\<dots> \<subseteq> insert (fst x, snd x) (set d) \<union> set kvs"
    using set_update_subset [of "fst x" "snd x" d] by blast
  finally show ?case
    by (auto simp: case_prod_unfold)
qed

lemma set_as_dict_subset: "set (as_dict kvs) \<subseteq> set kvs"
  using set_fold_update_subset [of kvs "[]"] by (simp add: as_dict_def)

lemma keys_fold_update:
  "fst ` set (fold (\<lambda>(k, v) d. AList.update k v d) kvs d) = fst ` set d \<union> fst ` set kvs"
proof (induction kvs arbitrary: d)
  case Nil
  then show ?case by simp
next
  case (Cons x kvs)
  have "fst ` set (fold (\<lambda>(k, v) d. AList.update k v d) kvs (AList.update (fst x) (snd x) d))
          = fst ` set (AList.update (fst x) (snd x) d) \<union> fst ` set kvs"
    by (rule Cons.IH)
  then show ?case
    by (simp add: case_prod_unfold dom_update)
qed

lemma keys_as_dict: "fst ` set (as_dict kvs) = fst ` set kvs"
  using keys_fold_update [of kvs "[]"] by (simp add: as_dict_def)

lemma dict_get_in_set: "dict_get kvs n = Some v \<Longrightarrow> (n, v) \<in> set kvs"
proof -
  assume "dict_get kvs n = Some v"
  then have "(n, v) \<in> set (as_dict kvs)"
    unfolding dict_get_def by (rule map_of_SomeD)
  with set_as_dict_subset show ?thesis
    by blast
qed

lemma dict_get_None_iff: "dict_get kvs n = None \<longleftrightarrow> n \<notin> fst ` set kvs"
  by (simp add: dict_get_def map_of_eq_None_iff keys_as_dict)

lemma keys_raw_attrs: "map fst (raw_attrs kvs) = map fst (as_dict kvs)"
  by (simp add: raw_attrs_def case_prod_unfold)

lemma distinct_raw_attrs: "distinct (map fst (raw_attrs kvs))"
  by (simp add: keys_raw_attrs distinct_as_dict)

lemma map_of_raw_attrs: "map_of (raw_attrs kvs) n = map_option Raw (dict_get kvs n)"
  by (simp add: raw_attrs_def dict_get_def map_of_map)

lemma key_set_raw_attrs: "fst ` set (raw_attrs kvs) = fst ` set kvs"
proof -
  have "fst ` set (raw_attrs kvs) = set (map fst (raw_attrs kvs))"
    by simp
  also have "\<dots> = fst ` set (as_dict kvs)"
    unfolding keys_raw_attrs by simp
  finally show ?thesis
    by (simp add: keys_as_dict)
qed

subsection \<open>Reserved names\<close>

lemma ordinary_names_iff: "ordinary_names kvs \<longleftrightarrow> (\<forall>k \<in> fst ` set kvs. k \<notin> set reserved)"
  by (auto simp: ordinary_names_def list_all_iff)

lemma ordinary_raw_attrs: "ordinary_names kvs \<Longrightarrow> ordinary_names (raw_attrs kvs)"
  by (simp add: ordinary_names_iff key_set_raw_attrs)

lemma no_reserved_ordinary: "no_reserved (JObj kvs) \<Longrightarrow> ordinary_names kvs"
  by (auto simp: ordinary_names_iff)

lemma no_reserved_field:
  assumes "no_reserved (JObj kvs)" and "dict_get kvs n = Some v"
  shows "no_reserved v"
proof -
  from assms(2) have "(n, v) \<in> set kvs"
    by (rule dict_get_in_set)
  with assms(1) show ?thesis
    by auto
qed

lemma setattr_ordinary: "n \<notin> set reserved \<Longrightarrow> setattr a n v = Inr (AList.update n v a)"
  by (simp add: setattr_def reserved_def)

lemma setattr_literal [simp]:
  "setattr a ''members'' = (\<lambda>v. Inr (AList.update ''members'' v a))"
  "setattr a ''problem'' = (\<lambda>v. Inr (AList.update ''problem'' v a))"
  "setattr a ''author'' = (\<lambda>v. Inr (AList.update ''author'' v a))"
  "setattr a ''hacker'' = (\<lambda>v. Inr (AList.update ''hacker'' v a))"
  "setattr a ''defender'' = (\<lambda>v. Inr (AList.update ''defender'' v a))"
  "setattr a ''party'' = (\<lambda>v. Inr (AList.update ''party'' v a))"
  "setattr a ''problemResults'' = (\<lambda>v. Inr (AList.update ''problemResults'' v a))"
  "setattr a ''blogEntry'' = (\<lambda>v. Inr (AList.update ''blogEntry'' v a))"
  "setattr a ''comment'' = (\<lambda>v. Inr (AList.update ''comment'' v a))"
  by (simp_all add: setattr_def fun_eq_iff)

lemma init_loop_ordinary:
  "ordinary_names xs \<Longrightarrow> init_loop xs acc = Inr (fold (\<lambda>(n, v) a. AList.update n v a) xs acc)"
proof (induction xs arbitrary: acc)
  case Nil
  then show ?case by simp
next
  case (Cons x xs)
  obtain n v where x: "x = (n, v)" by (cases x)
  from Cons.prems have n: "n \<notin> set reserved" and xs: "ordinary_names xs"
    by (simp_all add: ordinary_names_def x)
  show ?case
    by (simp add: x setattr_ordinary [OF n] Cons.IH [OF xs])
qed

lemma fold_update_distinct:
  "distinct (map fst xs) \<Longrightarrow> fst ` set xs \<inter> fst ` set acc = {}
    \<Longrightarrow> fold (\<lambda>(n, v) a. AList.update n v a) xs acc = acc @ xs"
proof (induction xs arbitrary: acc)
  case Nil
  then show ?case by simp
next
  case (Cons x xs)
  obtain n v where x: "x = (n, v)" by (cases x)
  from Cons.prems have fresh: "n \<notin> fst ` set acc" by (auto simp: x)
  have "fold (\<lambda>(n, v) a. AList.update n v a) xs (acc @ [(n, v)]) = (acc @ [(n, v)]) @ xs"
    using Cons.prems by (intro Cons.IH) (auto simp: x)
  then show ?case
    by (simp add: x update_fresh [OF fresh])
qed

lemma init_loop_fails:
  assumes "k \<in> fst ` set xs" and "k = ''__class__'' \<or> k = ''__weakref__''"
  shows "\<exists>err. init_loop xs acc = Inl err"
  using assms(1)
proof (induction xs arbitrary: acc)
  case Nil
  then show ?case by simp
next
  case (Cons x xs)
  obtain n v where x: "x = (n, v)" by (cases x)
  show ?case
  proof (cases "setattr acc n v")
    case (Inl err)
    then show ?thesis by (simp add: x)
  next
    case (Inr acc')
    with assms(2) have "n \<noteq> k"
      by (auto simp: setattr_def split: if_splits)
    with Cons.prems have "k \<in> fst ` set xs"
      by (auto simp: x)
    then have "\<exists>err. init_loop xs acc' = Inl err"
      by (rule Cons.IH)
    then show ?thesis by (simp add: x Inr)
  qed
qed

subsection \<open>The initialiser of the base class\<close>

lemma CodeforcesResponse_init_mapping:
  "ordinary_names kvs \<Longrightarrow> CodeforcesResponse_init (Raw (JObj kvs)) = Inr (raw_attrs kvs)"
  by (simp add: CodeforcesResponse_init_def init_loop_ordinary ordinary_raw_attrs
        fold_update_distinct distinct_raw_attrs)

lemma CodeforcesResponse_init_other:
  "\<not> is_mapping j \<Longrightarrow> CodeforcesResponse_init j = Inl (AttributeError ''items'')"
  by (cases j rule: is_mapping.cases) (simp_all add: CodeforcesResponse_init_def)

lemma CodeforcesResponse_init_fails:
  assumes "k \<in> fst ` set kvs" and "k = ''__class__'' \<or> k = ''__weakref__''"
  shows "\<exists>err. CodeforcesResponse_init (Raw (JObj kvs)) = Inl err"
proof -
  from assms(1) have "k \<in> fst ` set (raw_attrs kvs)"
    by (simp add: key_set_raw_attrs)
  then have "\<exists>err. init_loop (raw_attrs kvs) [] = Inl err"
    using assms(2) by (rule init_loop_fails)
  then show ?thesis
    by (simp add: CodeforcesResponse_init_def)
qed

lemma is_mapping_cases:
  obtains kvs where "j = Raw (JObj kvs)" | "\<not> is_mapping j"
  by (cases j rule: is_mapping.cases) simp_all

lemma CodeforcesResponse_init_ok_iff:
  "plain j \<Longrightarrow> (\<exists>a. CodeforcesResponse_init j = Inr a) \<longleftrightarrow> is_mapping j"
proof (cases j rule: is_mapping_cases)
  case (1 kvs)
  assume "plain j"
  with 1 have "ordinary_names kvs"
    by (simp add: no_reserved_ordinary)
  then show ?thesis
    by (simp add: 1 CodeforcesResponse_init_mapping)
next
  case 2
  then show ?thesis
    by (simp add: CodeforcesResponse_init_other)
qed

lemma construct_Inr_iff:
  "construct c init j = Inr r \<longleftrightarrow> (\<exists>a. init j = Inr a \<and> r = Obj c a)"
  by (cases "init j") (auto simp: construct_def)

lemma construct_plain:
  "ordinary_names kvs
     \<Longrightarrow> construct c CodeforcesResponse_init (Raw (JObj kvs)) = Inr (Obj c (raw_attrs kvs))"
  by (simp add: construct_def CodeforcesResponse_init_mapping)

lemma construct_plain_other:
  "\<not> is_mapping j \<Longrightarrow> construct c CodeforcesResponse_init j = Inl (AttributeError ''items'')"
  by (simp add: construct_def CodeforcesResponse_init_other)

lemma construct_ok_iff:
  "(\<exists>r. construct c init j = Inr r) \<longleftrightarrow> (\<exists>a. init j = Inr a)"
  by (simp add: construct_Inr_iff)

lemma construct_fails: "(\<exists>err. init j = Inl err) \<Longrightarrow> \<exists>err. construct c init j = Inl err"
  by (auto simp: construct_def)

subsection \<open>Lists of records\<close>

lemma map_new_Inr_iff:
  "map_new f xs = Inr ys \<longleftrightarrow> list_all2 (\<lambda>x y. f x = Inr y) xs ys"
proof (induction xs arbitrary: ys)
  case Nil
  then show ?case by auto
next
  case (Cons x xs)
  show ?case
    by (cases ys) (auto simp: and_then_Inr_iff Cons.IH)
qed

lemma map_new_ok_iff:
  "(\<exists>ys. map_new f xs = Inr ys) \<longleftrightarrow> list_all (\<lambda>x. \<exists>y. f x = Inr y) xs"
proof (induction xs)
  case Nil
  then show ?case by simp
next
  case (Cons x xs)
  have "(\<exists>ys. map_new f (x # xs) = Inr ys)
          \<longleftrightarrow> (\<exists>y. f x = Inr y) \<and> (\<exists>ys. map_new f xs = Inr ys)"
    by (auto simp: and_then_Inr_iff)
  then show ?case
    by (simp add: Cons.IH)
qed

lemma map_new_length: "map_new f xs = Inr ys \<Longrightarrow> length ys = length xs"
  by (simp add: map_new_Inr_iff list_all2_lengthD)

lemma map_new_plain_ok_iff:
  assumes "list_all plain xs"
  shows "(\<exists>ys. map_new (construct c CodeforcesResponse_init) xs = Inr ys)
           \<longleftrightarrow> list_all is_mapping xs"
proof -
  have "list_all (\<lambda>x. \<exists>y. construct c CodeforcesResponse_init x = Inr y) xs
          \<longleftrightarrow> list_all is_mapping xs"
    using assms
    by (induction xs) (simp_all add: construct_ok_iff CodeforcesResponse_init_ok_iff)
  then show ?thesis
    by (simp add: map_new_ok_iff)
qed

lemma list_all_False_iff: "list_all (\<lambda>x. False) xs \<longleftrightarrow> xs = []"
  by (cases xs) simp_all

lemma iter_seq_of_mappings:
  "(\<exists>xs. iter v = Inr xs \<and> list_all is_mapping xs) \<longleftrightarrow> seq_of_mappings v"
  by (cases v rule: seq_of_mappings.cases)
     (simp_all add: list_all_False_iff as_dict_Nil_iff list.pred_map comp_def case_prod_unfold)

lemma iter_plain: "no_reserved m \<Longrightarrow> iter (Raw m) = Inr xs \<Longrightarrow> list_all plain xs"
  by (cases m) (auto simp: list_all_iff)

lemma wrap_list_ok_iff:
  assumes "no_reserved m" and v: "v = Raw m"
  shows "(\<exists>ys. and_then (iter v) (\<lambda>xs.
               and_then (map_new (construct c CodeforcesResponse_init) xs) (\<lambda>ms. Inr (g ms)))
             = Inr ys)
           \<longleftrightarrow> seq_of_mappings v"
proof -
  have "(\<exists>ys. and_then (iter v) (\<lambda>xs.
               and_then (map_new (construct c CodeforcesResponse_init) xs) (\<lambda>ms. Inr (g ms)))
             = Inr ys)
          \<longleftrightarrow> (\<exists>xs. iter v = Inr xs
                \<and> (\<exists>ms. map_new (construct c CodeforcesResponse_init) xs = Inr ms))"
    by (auto simp: and_then_Inr_iff)
  also have "\<dots> \<longleftrightarrow> (\<exists>xs. iter v = Inr xs \<and> list_all is_mapping xs)"
  proof -
    have "(\<exists>ms. map_new (construct c CodeforcesResponse_init) xs = Inr ms)
            \<longleftrightarrow> list_all is_mapping xs" if "iter v = Inr xs" for xs
      using that iter_plain [OF assms(1)] unfolding v by (intro map_new_plain_ok_iff) blast
    then show ?thesis
      by blast
  qed
  finally show ?thesis
    by (simp add: iter_seq_of_mappings)
qed

subsection \<open>Attributes\<close>

lemma getattr_raw_attrs:
  "getattr (raw_attrs kvs) n =
     (case dict_get kvs n of None \<Rightarrow> Inl (AttributeError n) | Some v \<Rightarrow> Inr (Raw v))"
  by (simp add: getattr_def map_of_raw_attrs split: option.splits)

lemma getattr_update_other:
  "n \<noteq> n' \<Longrightarrow> getattr (AList.update n' v a) n = getattr a n"
  by (simp add: getattr_def update_conv')

lemma getattr_update_same: "getattr (AList.update n v a) n = Inr v"
  by (simp add: getattr_def update_conv')

lemma hasattr_raw_attrs: "hasattr (raw_attrs kvs) n \<longleftrightarrow> dict_get kvs n \<noteq> None"
  by (simp add: hasattr_def map_of_raw_attrs)

lemma hasattr_update_other: "n \<noteq> n' \<Longrightarrow> hasattr (AList.update n' v a) n = hasattr a n"
  by (simp add: hasattr_def update_conv')

lemma keeps_fields_raw: "keeps_fields W kvs (raw_attrs kvs)"
  by (simp add: keeps_fields_def keys_raw_attrs map_of_raw_attrs)

lemma keeps_fields_update:
  assumes "keeps_fields W kvs a" and "n \<in> set W" and "dict_get kvs n = Some x"
  shows "keeps_fields W kvs (AList.update n v a)"
proof -
  from assms(3) have "(n, x) \<in> set (as_dict kvs)"
    unfolding dict_get_def by (rule map_of_SomeD)
  then have "n \<in> set (map fst (as_dict kvs))"
    by force
  with assms(1) have "n \<in> set (map fst a)"
    by (simp add: keeps_fields_def)
  then have "map fst (AList.update n v a) = map fst a"
    by (simp add: update_keys)
  moreover have "map_of (AList.update n v a) m = map_of a m" if "m \<notin> set W" for m
    using that assms(2) by (auto simp: update_conv')
  ultimately show ?thesis
    using assms(1) by (simp add: keeps_fields_def)
qed

subsection \<open>The initialisers of the composite classes\<close>

lemma Party_init_eq:
  "ordinary_names kvs \<Longrightarrow>
   Party_init (Raw (JObj kvs)) =
     (case dict_get kvs ''members'' of
        None \<Rightarrow> Inl (AttributeError ''members'')
      | Some m \<Rightarrow>
          and_then (iter (Raw m)) (\<lambda>xs.
          and_then (map_new (construct Member CodeforcesResponse_init) xs) (\<lambda>ms.
          Inr (AList.update ''members'' (ObjList ms) (raw_attrs kvs)))))"
  by (simp add: Party_init_def CodeforcesResponse_init_mapping getattr_raw_attrs
        split: option.splits)

lemma Submission_init_eq:
  "ordinary_names kvs \<Longrightarrow>
   Submission_init (Raw (JObj kvs)) =
     (case dict_get kvs ''problem'' of
        None \<Rightarrow> Inl (AttributeError ''problem'')
      | Some p \<Rightarrow>
          and_then (construct Problem CodeforcesResponse_init (Raw p)) (\<lambda>p'.
          case dict_get kvs ''author'' of
            None \<Rightarrow> Inl (AttributeError ''author'')
          | Some a \<Rightarrow>
              and_then (construct Party Party_init (Raw a)) (\<lambda>a'.
              Inr (AList.update ''author'' a' (AList.update ''problem'' p' (raw_attrs kvs))))))"
  by (simp add: Submission_init_def CodeforcesResponse_init_mapping getattr_raw_attrs
        getattr_update_other split: option.splits)

lemma Hack_init_eq:
  "ordinary_names kvs \<Longrightarrow>
   Hack_init (Raw (JObj kvs)) =
     (case dict_get kvs ''hacker'' of
        None \<Rightarrow> Inl (AttributeError ''hacker'')
      | Some h \<Rightarrow>
          and_then (construct Party Party_init (Raw h)) (\<lambda>h'.
          case dict_get kvs ''defender'' of
            None \<Rightarrow> Inl (AttributeError ''defender'')
          | Some d \<Rightarrow>
              and_then (construct Party Party_init (Raw d)) (\<lambda>d'.
              Inr (AList.update ''defender'' d' (AList.update ''hacker'' h' (raw_attrs kvs))))))"
  by (simp add: Hack_init_def CodeforcesResponse_init_mapping getattr_raw_attrs
        getattr_update_other split: option.splits)

lemma RanklistRow_init_eq:
  "ordinary_names kvs \<Longrightarrow>
   RanklistRow_init (Raw (JObj kvs)) =
     (case dict_get kvs ''party'' of
        None \<Rightarrow> Inl (AttributeError ''party'')
      | Some p \<Rightarrow>
          and_then (construct Party Party_init (Raw p)) (\<lambda>p'.
          case dict_get kvs ''problemResults'' of
            None \<Rightarrow> Inl (AttributeError ''problemResults'')
          | Some rs \<Rightarrow>
              and_then (iter (Raw rs)) (\<lambda>xs.
              and_then (map_new (construct ProblemResult CodeforcesResponse_init) xs) (\<lambda>rs'.
              Inr (AList.update ''problemResults'' (ObjList rs')
                     (AList.update ''party'' p' (raw_attrs kvs)))))))"
  by (simp add: RanklistRow_init_def CodeforcesResponse_init_mapping getattr_raw_attrs
        getattr_update_other split: option.splits)

lemma RecentAction_init_eq:
  "ordinary_names kvs \<Longrightarrow>
   RecentAction_init (Raw (JObj kvs)) =
     (case dict_get kvs ''blogEntry'' of
        None \<Rightarrow>
          (case dict_get kvs ''comment'' of
             None \<Rightarrow> Inr (raw_attrs kvs)
           | Some c \<Rightarrow>
               and_then (construct Comment CodeforcesResponse_init (Raw c)) (\<lambda>c'.
               Inr (AList.update ''comment'' c' (raw_attrs kvs))))
      | Some b \<Rightarrow>
          and_then (construct BlogEntry CodeforcesResponse_init (Raw b)) (\<lambda>b'.
          case dict_get kvs ''comment'' of
            None \<Rightarrow> Inr (AList.update ''blogEntry'' b' (raw_attrs kvs))
          | Some c \<Rightarrow>
              and_then (construct Comment CodeforcesResponse_init (Raw c)) (\<lambda>c'.
              Inr (AList.update ''comment'' c' (AList.update ''blogEntry'' b' (raw_attrs kvs))))))"
  by (simp add: RecentAction_init_def CodeforcesResponse_init_mapping getattr_raw_attrs
        hasattr_raw_attrs getattr_update_other hasattr_update_other and_then_assoc
        split: option.splits)

lemma init_not_mapping:
  assumes "\<not> is_mapping j"
  shows "Party_init j = Inl (AttributeError ''items'')"
    and "Submission_init j = Inl (AttributeError ''items'')"
    and "Hack_init j = Inl (AttributeError ''items'')"
    and "RanklistRow_init j = Inl (AttributeError ''items'')"
    and "RecentAction_init j = Inl (AttributeError ''items'')"
  using assms
  by (simp_all add: Party_init_def Submission_init_def Hack_init_def RanklistRow_init_def
        RecentAction_init_def CodeforcesResponse_init_other)

lemma field_is_not_mapping: "\<not> is_mapping j \<Longrightarrow> \<not> field_is P n j"
  by (cases j rule: is_mapping.cases) simp_all

lemma field_absent_or_not_mapping: "\<not> is_mapping j \<Longrightarrow> \<not> field_absent_or P n j"
  by (cases j rule: is_mapping.cases) simp_all

lemma Party_init_ok_iff:
  assumes "plain j"
  shows "(\<exists>a. Party_init j = Inr a) \<longleftrightarrow> shaped_Party j"
proof (cases j rule: is_mapping_cases)
  case (1 kvs)
  from assms have nr: "no_reserved (JObj kvs)"
    by (simp add: 1)
  then have ord: "ordinary_names kvs"
    by (rule no_reserved_ordinary)
  show ?thesis
  proof (cases "dict_get kvs ''members''")
    case None
    then show ?thesis
      by (simp add: 1 Party_init_eq [OF ord] shaped_Party_def)
  next
    case (Some m)
    with nr have "no_reserved m"
      by (rule no_reserved_field)
    then show ?thesis
      by (simp add: 1 Party_init_eq [OF ord] shaped_Party_def Some wrap_list_ok_iff)
  qed
next
  case 2
  then show ?thesis
    by (simp add: init_not_mapping shaped_Party_def field_is_not_mapping)
qed

lemma construct_Party_ok_iff:
  "no_reserved a \<Longrightarrow> (\<exists>r. construct Party Party_init (Raw a) = Inr r) \<longleftrightarrow> shaped_Party (Raw a)"
  by (simp add: construct_ok_iff Party_init_ok_iff)

lemma construct_base_ok_iff:
  "no_reserved p \<Longrightarrow>
     (\<exists>r. construct c CodeforcesResponse_init (Raw p) = Inr r) \<longleftrightarrow> is_mapping (Raw p)"
  by (simp add: construct_ok_iff CodeforcesResponse_init_ok_iff)

lemma Submission_init_ok_iff:
  assumes "plain j"
  shows "(\<exists>a. Submission_init j = Inr a)
     \<longleftrightarrow> field_is is_mapping ''problem'' j \<and> field_is shaped_Party ''author'' j"
proof (cases j rule: is_mapping_cases)
  case (1 kvs)
  from assms have nr: "no_reserved (JObj kvs)"
    by (simp add: 1)
  then have ord: "ordinary_names kvs"
    by (rule no_reserved_ordinary)
  show ?thesis
  proof (cases "dict_get kvs ''problem''")
    case None
    then show ?thesis
      by (simp add: 1 Submission_init_eq [OF ord])
  next
    case p: (Some p)
    with nr have nrp: "no_reserved p"
      by (rule no_reserved_field)
    show ?thesis
    proof (cases "dict_get kvs ''author''")
      case None
      then show ?thesis
        by (simp add: 1 Submission_init_eq [OF ord] p and_then_Inr_iff)
    next
      case a: (Some a)
      with nr have nra: "no_reserved a"
        by (rule no_reserved_field)
      have "(\<exists>x. Submission_init (Raw (JObj kvs)) = Inr x)
              \<longleftrightarrow> (\<exists>r. construct Problem CodeforcesResponse_init (Raw p) = Inr r)
                  \<and> (\<exists>r. construct Party Party_init (Raw a) = Inr r)"
        by (auto simp: Submission_init_eq [OF ord] p a and_then_Inr_iff)
      then show ?thesis
        by (simp add: 1 p a construct_base_ok_iff [OF nrp] construct_Party_ok_iff [OF nra])
    qed
  qed
next
  case 2
  then show ?thesis
    by (simp add: init_not_mapping field_is_not_mapping)
qed

lemma Hack_init_ok_iff:
  assumes "plain j"
  shows "(\<exists>a. Hack_init j = Inr a)
     \<longleftrightarrow> field_is shaped_Party ''hacker'' j \<and> field_is shaped_Party ''defender'' j"
proof (cases j rule: is_mapping_cases)
  case (1 kvs)
  from assms have nr: "no_reserved (JObj kvs)"
    by (simp add: 1)
  then have ord: "ordinary_names kvs"
    by (rule no_reserved_ordinary)
  show ?thesis
  proof (cases "dict_get kvs ''hacker''")
    case None
    then show ?thesis
      by (simp add: 1 Hack_init_eq [OF ord])
  next
    case h: (Some h)
    with nr have nrh: "no_reserved h"
      by (rule no_reserved_field)
    show ?thesis
    proof (cases "dict_get kvs ''defender''")
      case None
      then show ?thesis
        by (simp add: 1 Hack_init_eq [OF ord] h and_then_Inr_iff)
    next
      case d: (Some d)
      with nr have nrd: "no_reserved d"
        by (rule no_reserved_field)
      have "(\<exists>x. Hack_init (Raw (JObj kvs)) = Inr x)
              \<longleftrightarrow> (\<exists>r. construct Party Party_init (Raw h) = Inr r)
                  \<and> (\<exists>r. construct Party Party_init (Raw d) = Inr r)"
        by (auto simp: Hack_init_eq [OF ord] h d and_then_Inr_iff)
      then show ?thesis
        by (simp add: 1 h d construct_Party_ok_iff [OF nrh] construct_Party_ok_iff [OF nrd])
    qed
  qed
next
  case 2
  then show ?thesis
    by (simp add: init_not_mapping field_is_not_mapping)
qed

lemma RanklistRow_init_ok_iff:
  assumes "plain j"
  shows "(\<exists>a. RanklistRow_init j = Inr a)
     \<longleftrightarrow> field_is shaped_Party ''party'' j \<and> field_is seq_of_mappings ''problemResults'' j"
proof (cases j rule: is_mapping_cases)
  case (1 kvs)
  from assms have nr: "no_reserved (JObj kvs)"
    by (simp add: 1)
  then have ord: "ordinary_names kvs"
    by (rule no_reserved_ordinary)
  show ?thesis
  proof (cases "dict_get kvs ''party''")
    case None
    then show ?thesis
      by (simp add: 1 RanklistRow_init_eq [OF ord])
  next
    case p: (Some p)
    with nr have nrp: "no_reserved p"
      by (rule no_reserved_field)
    show ?thesis
    proof (cases "dict_get kvs ''problemResults''")
      case None
      then show ?thesis
        by (simp add: 1 RanklistRow_init_eq [OF ord] p and_then_Inr_iff)
    next
      case rs: (Some rs)
      with nr have nrr: "no_reserved rs"
        by (rule no_reserved_field)
      have "(\<exists>a. RanklistRow_init (Raw (JObj kvs)) = Inr a)
              \<longleftrightarrow> (\<exists>r. construct Party Party_init (Raw p) = Inr r)
                  \<and> (\<exists>ys. and_then (iter (Raw rs)) (\<lambda>xs.
                        and_then (map_new (construct ProblemResult CodeforcesResponse_init) xs)
                          (\<lambda>ms. Inr (ObjList ms))) = Inr ys)"
        by (auto simp: RanklistRow_init_eq [OF ord] p rs and_then_Inr_iff)
      then show ?thesis
        by (simp add: 1 p rs construct_Party_ok_iff [OF nrp] wrap_list_ok_iff [OF nrr])
    qed
  qed
next
  case 2
  then show ?thesis
    by (simp add: init_not_mapping field_is_not_mapping)
qed

lemma RecentAction_init_ok_iff:
  assumes "plain j"
  shows "(\<exists>a. RecentAction_init j = Inr a)
     \<longleftrightarrow> field_absent_or is_mapping ''blogEntry'' j \<and> field_absent_or is_mapping ''comment'' j"
proof (cases j rule: is_mapping_cases)
  case (1 kvs)
  from assms have nr: "no_reserved (JObj kvs)"
    by (simp add: 1)
  then have ord: "ordinary_names kvs"
    by (rule no_reserved_ordinary)
  have b: "(\<exists>r. construct BlogEntry CodeforcesResponse_init (Raw b) = Inr r) \<longleftrightarrow> is_mapping (Raw b)"
    if "dict_get kvs ''blogEntry'' = Some b" for b
    using no_reserved_field [OF nr that] by (rule construct_base_ok_iff)
  have c: "(\<exists>r. construct Comment CodeforcesResponse_init (Raw c) = Inr r) \<longleftrightarrow> is_mapping (Raw c)"
    if "dict_get kvs ''comment'' = Some c" for c
    using no_reserved_field [OF nr that] by (rule construct_base_ok_iff)
  show ?thesis
  proof (cases "dict_get kvs ''blogEntry''")
    case None
    show ?thesis
    proof (cases "dict_get kvs ''comment''")
      case cn: None
      then show ?thesis
        by (simp add: 1 None RecentAction_init_eq [OF ord])
    next
      case cs: (Some c')
      have "(\<exists>a. RecentAction_init (Raw (JObj kvs)) = Inr a)
              \<longleftrightarrow> (\<exists>r. construct Comment CodeforcesResponse_init (Raw c') = Inr r)"
        by (auto simp: RecentAction_init_eq [OF ord] None cs and_then_Inr_iff)
      then show ?thesis
        by (simp add: 1 None cs c [OF cs])
    qed
  next
    case bs: (Some b')
    show ?thesis
    proof (cases "dict_get kvs ''comment''")
      case cn: None
      have "(\<exists>a. RecentAction_init (Raw (JObj kvs)) = Inr a)
              \<longleftrightarrow> (\<exists>r. construct BlogEntry CodeforcesResponse_init (Raw b') = Inr r)"
        by (auto simp: RecentAction_init_eq [OF ord] bs cn and_then_Inr_iff)
      then show ?thesis
        by (simp add: 1 bs cn b [OF bs])
    next
      case cs: (Some c')
      have "(\<exists>a. RecentAction_init (Raw (JObj kvs)) = Inr a)
              \<longleftrightarrow> (\<exists>r. construct BlogEntry CodeforcesResponse_init (Raw b') = Inr r)
                  \<and> (\<exists>r. construct Comment CodeforcesResponse_init (Raw c') = Inr r)"
        by (auto simp: RecentAction_init_eq [OF ord] bs cs and_then_Inr_iff)
      then show ?thesis
        by (simp add: 1 bs cs b [OF bs] c [OF cs])
    qed
  qed
next
  case 2
  then show ?thesis
    by (simp add: init_not_mapping field_absent_or_not_mapping)
qed

lemma init_of_ok_iff: "plain j \<Longrightarrow> (\<exists>a. init_of c j = Inr a) \<longleftrightarrow> shaped c j"
  by (cases c)
     (simp_all add: CodeforcesResponse_init_ok_iff Party_init_ok_iff Submission_init_ok_iff
        Hack_init_ok_iff RanklistRow_init_ok_iff RecentAction_init_ok_iff)

lemma new_ok_iff: "plain j \<Longrightarrow> (\<exists>r. new c j = Inr r) \<longleftrightarrow> shaped c j"
  by (simp add: new_def construct_ok_iff init_of_ok_iff)

lemma Party_init_keeps:
  "ordinary_names kvs \<Longrightarrow> Party_init (Raw (JObj kvs)) = Inr a
     \<Longrightarrow> keeps_fields [''members''] kvs a"
  by (auto simp: Party_init_eq and_then_Inr_iff keeps_fields_update keeps_fields_raw
        split: option.splits)

lemma Submission_init_keeps:
  "ordinary_names kvs \<Longrightarrow> Submission_init (Raw (JObj kvs)) = Inr a
     \<Longrightarrow> keeps_fields [''problem'', ''author''] kvs a"
  by (auto simp: Submission_init_eq and_then_Inr_iff keeps_fields_update keeps_fields_raw
        split: option.splits)

lemma Hack_init_keeps:
  "ordinary_names kvs \<Longrightarrow> Hack_init (Raw (JObj kvs)) = Inr a
     \<Longrightarrow> keeps_fields [''hacker'', ''defender''] kvs a"
  by (auto simp: Hack_init_eq and_then_Inr_iff keeps_fields_update keeps_fields_raw
        split: option.splits)

lemma RanklistRow_init_keeps:
  "ordinary_names kvs \<Longrightarrow> RanklistRow_init (Raw (JObj kvs)) = Inr a
     \<Longrightarrow> keeps_fields [''party'', ''problemResults''] kvs a"
  by (auto simp: RanklistRow_init_eq and_then_Inr_iff keeps_fields_update keeps_fields_raw
        split: option.splits)

lemma RecentAction_init_keeps:
  "ordinary_names kvs \<Longrightarrow> RecentAction_init (Raw (JObj kvs)) = Inr a
     \<Longrightarrow> keeps_fields [''blogEntry'', ''comment''] kvs a"
  by (auto simp: RecentAction_init_eq and_then_Inr_iff keeps_fields_update keeps_fields_raw
        split: option.splits)

lemma init_of_keeps:
  "ordinary_names kvs \<Longrightarrow> init_of c (Raw (JObj kvs)) = Inr a
     \<Longrightarrow> keeps_fields (wrapped c) kvs a"
  by (cases c)
     (auto simp: CodeforcesResponse_init_mapping keeps_fields_raw Party_init_keeps
        Submission_init_keeps Hack_init_keeps RanklistRow_init_keeps RecentAction_init_keeps)

lemma init_of_plain: "wrapped c = [] \<Longrightarrow> init_of c = CodeforcesResponse_init"
  by (cases c) simp_all

lemma init_of_fails:
  assumes "\<exists>err. CodeforcesResponse_init j = Inl err"
  shows "\<exists>err. init_of c j = Inl err"
proof -
  from assms obtain err where "CodeforcesResponse_init j = Inl err"
    by blast
  then show ?thesis
    by (cases c)
       (simp_all add: Party_init_def Submission_init_def Hack_init_def RanklistRow_init_def
          RecentAction_init_def)
qed

text \<open>
  C5, amended. Construction does not validate. For a raw value in which no mapping has a
  field of a reserved name, construction of a record of any class succeeds exactly when
  the value has the shape the class needs: a mapping, and for \<open>Party\<close>, \<open>Submission\<close>,
  \<open>Hack\<close> and \<open>RanklistRow\<close> each field the initialiser wraps must be present and itself
  of the shape its wrapping needs, while \<open>RecentAction\<close> needs \<open>blogEntry\<close> and
  \<open>comment\<close> to be mappings only where they are present. When construction succeeds on a
  mapping with ordinary field names, the attribute names are exactly the field names, so
  an absent optional field stays absent, and every field the class does not wrap keeps its
  raw value; for a class without an initialiser of its own every mapping with ordinary
  field names is wrapped, with all its fields as raw attributes. A mapping with a field
  named \<^verbatim>\<open>__class__\<close> or \<^verbatim>\<open>__weakref__\<close> is never wrapped: construction raises.
\<close>

theorem new_succeeds_iff_shaped:
  "(plain j \<longrightarrow> ((\<exists>r. new c j = Inr r) \<longleftrightarrow> shaped c j))
   \<and> (\<forall>kvs r. ordinary_names kvs \<and> new c (Raw (JObj kvs)) = Inr r
          \<longrightarrow> (\<exists>a. r = Obj c a \<and> keeps_fields (wrapped c) kvs a))
   \<and> (wrapped c = [] \<longrightarrow>
        (\<forall>kvs. ordinary_names kvs \<longrightarrow> new c (Raw (JObj kvs)) = Inr (Obj c (raw_attrs kvs))))
   \<and> (\<forall>kvs. ''__class__'' \<in> fst ` set kvs \<or> ''__weakref__'' \<in> fst ` set kvs
          \<longrightarrow> (\<exists>err. new c (Raw (JObj kvs)) = Inl err))"
proof (intro conjI allI impI)
  assume "plain j"
  then show "(\<exists>r. new c j = Inr r) \<longleftrightarrow> shaped c j"
    by (rule new_ok_iff)
next
  fix kvs r
  assume h: "ordinary_names kvs \<and> new c (Raw (JObj kvs)) = Inr r"
  then obtain a where a: "init_of c (Raw (JObj kvs)) = Inr a" and r: "r = Obj c a"
    by (auto simp: new_def construct_Inr_iff)
  from h a have "keeps_fields (wrapped c) kvs a"
    by (intro init_of_keeps) simp_all
  with r show "\<exists>a. r = Obj c a \<and> keeps_fields (wrapped c) kvs a"
    by blast
next
  fix kvs :: "(string \<times> json) list"
  assume "wrapped c = []" and "ordinary_names kvs"
  then show "new c (Raw (JObj kvs)) = Inr (Obj c (raw_attrs kvs))"
    by (simp add: new_def init_of_plain construct_plain)
next
  fix kvs :: "(string \<times> json) list"
  assume "''__class__'' \<in> fst ` set kvs \<or> ''__weakref__'' \<in> fst ` set kvs"
  then have "\<exists>err. CodeforcesResponse_init (Raw (JObj kvs)) = Inl err"
    using CodeforcesResponse_init_fails [of "''__class__''" kvs]
      CodeforcesResponse_init_fails [of "''__weakref__''" kvs]
    by blast
  then have "\<exists>err. init_of c (Raw (JObj kvs)) = Inl err"
    by (rule init_of_fails)
  then show "\<exists>err. new c (Raw (JObj kvs)) = Inl err"
    unfolding new_def by (rule construct_fails)
qed

theorem new_succeeds_iff_shaped_witness:
  "plain (Raw (JObj [(''id'', JNum 3), (''problem'', JObj [(''index'', JStr ''A'')]),
       (''author'', JObj [(''members'', JArr [JObj [(''handle'', JStr ''tourist'')]])]),
       (''extra'', JBool True)]))
   \<and> shaped Submission (Raw (JObj [(''id'', JNum 3), (''problem'', JObj [(''index'', JStr ''A'')]),
       (''author'', JObj [(''members'', JArr [JObj [(''handle'', JStr ''tourist'')]])]),
       (''extra'', JBool True)]))
   \<and> (\<exists>r. new Submission (Raw (JObj [(''id'', JNum 3), (''problem'', JObj [(''index'', JStr ''A'')]),
       (''author'', JObj [(''members'', JArr [JObj [(''handle'', JStr ''tourist'')]])]),
       (''extra'', JBool True)])) = Inr r)
   \<and> wrapped User = []
   \<and> ordinary_names [(''handle'', JStr ''tourist''), (''extra'', JNum 7)]
   \<and> new User (Raw (JObj [(''handle'', JStr ''tourist''), (''extra'', JNum 7)]))
       = Inr (Obj User [(''handle'', Raw (JStr ''tourist'')), (''extra'', Raw (JNum 7))])
   \<and> ''__class__'' \<in> fst ` set [(''handle'', JStr ''tourist''), (''__class__'', JNum 7)]
   \<and> (\<exists>err. new User (Raw (JObj [(''handle'', JStr ''tourist''), (''__class__'', JNum 7)]))
          = Inl err)"
proof -
  let ?j = "Raw (JObj [(''id'', JNum 3), (''problem'', JObj [(''index'', JStr ''A'')]),
       (''author'', JObj [(''members'', JArr [JObj [(''handle'', JStr ''tourist'')]])]),
       (''extra'', JBool True)])"
  let ?u = "[(''handle'', JStr ''tourist''), (''extra'', JNum 7)]"
  let ?k = "[(''handle'', JStr ''tourist''), (''__class__'', JNum 7)]"
  have p: "plain ?j"
    by code_simp
  have s: "shaped Submission ?j"
    by code_simp
  have w: "wrapped User = []"
    by simp
  have o: "ordinary_names ?u"
    by code_simp
  have k: "''__class__'' \<in> fst ` set ?k"
    by simp
  have ev: "raw_attrs ?u = [(''handle'', Raw (JStr ''tourist'')), (''extra'', Raw (JNum 7))]"
    by code_simp
  from new_succeeds_iff_shaped [of ?j Submission] p s
  have ex: "\<exists>r. new Submission ?j = Inr r"
    by blast
  from new_succeeds_iff_shaped [of _ User] w o
  have "new User (Raw (JObj ?u)) = Inr (Obj User (raw_attrs ?u))"
    by blast
  then have u: "new User (Raw (JObj ?u))
                  = Inr (Obj User [(''handle'', Raw (JStr ''tourist'')), (''extra'', Raw (JNum 7))])"
    by (simp only: ev)
  from new_succeeds_iff_shaped [of _ User] k
  have f: "\<exists>err. new User (Raw (JObj ?k)) = Inl err"
    by blast
  from p s ex w o u k f show ?thesis
    by (intro conjI)
qed

text \<open>
  C5, as the specification states it, fails: construction can fail although every field
  accessed for recursive wrapping is present. A \<open>Party\<close> whose \<open>members\<close> field is
  present with the value \<^verbatim>\<open>null\<close> raises \<^verbatim>\<open>TypeError\<close>, because \<^verbatim>\<open>None\<close> is not iterable.
\<close>

theorem Party_members_present_counterexample:
  "dict_get [(''members'', JNull), (''participantType'', JStr ''CONTESTANT'')] ''members''
     = Some JNull
   \<and> new Party (Raw (JObj [(''members'', JNull), (''participantType'', JStr ''CONTESTANT'')]))
     = Inl TypeError"
  by code_simp

text \<open>
  The reserved names at work: a field \<^verbatim>\<open>__class__\<close> or \<^verbatim>\<open>__weakref__\<close> makes the
  construction raise, a field \<^verbatim>\<open>__dict__\<close> raises unless its value is a mapping, and then
  the fields set before it are gone.
\<close>

lemma reserved_names_evaluated:
  "new User (Raw (JObj [(''handle'', JStr ''tourist''), (''__class__'', JNum 7)])) = Inl TypeError"
  "new User (Raw (JObj [(''__weakref__'', JNull)])) = Inl (AttributeError ''__weakref__'')"
  "new User (Raw (JObj [(''__dict__'', JNum 1)])) = Inl TypeError"
  "new User (Raw (JObj [(''a'', JNum 1), (''__dict__'', JObj [(''b'', JNum 2)]), (''c'', JNum 3)]))
     = Inr (Obj User [(''b'', Raw (JNum 2)), (''c'', Raw (JNum 3))])"
  by code_simp+

text \<open>
  C8, as the specification states it, fails: a raw \<open>RecentAction\<close> that contains a
  \<open>comment\<close> field and no \<open>blogEntry\<close> field need not be constructed at all. With
  \<open>comment\<close> present and \<^verbatim>\<open>null\<close>, \<^verbatim>\<open>Comment(None)\<close> raises \<^verbatim>\<open>AttributeError\<close>, since
  \<^verbatim>\<open>None\<close> has no \<^verbatim>\<open>items\<close>.
\<close>

theorem RecentAction_comment_null_counterexample:
  "dict_get [(''timeSeconds'', JNum 1700000000), (''comment'', JNull)] ''comment'' = Some JNull
   \<and> dict_get [(''timeSeconds'', JNum 1700000000), (''comment'', JNull)] ''blogEntry'' = None
   \<and> new RecentAction (Raw (JObj [(''timeSeconds'', JNum 1700000000), (''comment'', JNull)]))
       = Inl (AttributeError ''items'')"
  by code_simp

lemma plain_mapping_cases:
  assumes "absent_or plain_mapping x"
  obtains "x = None" | m where "x = Some (JObj m)" and "ordinary_names m"
proof (cases x)
  case None
  then show ?thesis by (rule that(1))
next
  case (Some j)
  with assms have "plain_mapping j"
    by (simp add: absent_or_def)
  then obtain m where "j = JObj m" and "ordinary_names m"
    by (cases j) simp_all
  with Some show ?thesis
    by (intro that(2)) simp_all
qed

lemma present_not_mapping_cases:
  assumes "present_not_mapping x"
  obtains j where "x = Some j" and "\<not> is_mapping (Raw j)"
  using assms by (cases x) (simp_all add: present_not_mapping_def)

lemma RecentAction_init_present:
  assumes ord: "ordinary_names kvs"
    and b: "absent_or plain_mapping (dict_get kvs ''blogEntry'')"
    and c: "absent_or plain_mapping (dict_get kvs ''comment'')"
  shows "\<exists>a. RecentAction_init (Raw (JObj kvs)) = Inr a
            \<and> map_of a ''blogEntry''
                = map_option (\<lambda>x. Obj BlogEntry (fields_of x)) (dict_get kvs ''blogEntry'')
            \<and> map_of a ''comment''
                = map_option (\<lambda>x. Obj Comment (fields_of x)) (dict_get kvs ''comment'')"
proof (cases rule: plain_mapping_cases [OF b])
  case 1
  show ?thesis
  proof (cases rule: plain_mapping_cases [OF c])
    case c1: 1
    show ?thesis
      by (simp add: RecentAction_init_eq [OF ord] 1 c1 map_of_raw_attrs)
  next
    case c2: (2 m)
    show ?thesis
      by (simp add: RecentAction_init_eq [OF ord] 1 c2 construct_plain update_conv'
            map_of_raw_attrs)
  qed
next
  case (2 n)
  show ?thesis
  proof (cases rule: plain_mapping_cases [OF c])
    case c1: 1
    show ?thesis
      by (simp add: RecentAction_init_eq [OF ord] 2 c1 construct_plain update_conv'
            map_of_raw_attrs)
  next
    case c2: (2 m)
    show ?thesis
      by (simp add: RecentAction_init_eq [OF ord] 2 c2 construct_plain update_conv'
            map_of_raw_attrs)
  qed
qed

text \<open>
  C8, amended. For a raw \<open>RecentAction\<close> with ordinary field names in which each of
  \<open>blogEntry\<close> and \<open>comment\<close> is absent or a mapping with ordinary field names,
  construction succeeds; the attribute \<open>blogEntry\<close> exists exactly when the field is
  present and is then the \<open>BlogEntry\<close> record of its mapping, the attribute \<open>comment\<close>
  exists exactly when the field is present and is then the \<open>Comment\<close> record of its
  mapping, and every other field keeps its raw value. Where \<open>blogEntry\<close> is present
  without being a mapping, and where \<open>blogEntry\<close> is as above and \<open>comment\<close> is present
  without being a mapping, construction raises \<^verbatim>\<open>AttributeError\<close>.
\<close>

theorem RecentAction_wraps_present_fields:
  assumes "ordinary_names kvs"
  shows
    "(absent_or plain_mapping (dict_get kvs ''blogEntry'')
        \<and> absent_or plain_mapping (dict_get kvs ''comment'') \<longrightarrow>
       (\<exists>a. new RecentAction (Raw (JObj kvs)) = Inr (Obj RecentAction a)
          \<and> map_of a ''blogEntry''
              = map_option (\<lambda>x. Obj BlogEntry (fields_of x)) (dict_get kvs ''blogEntry'')
          \<and> map_of a ''comment''
              = map_option (\<lambda>x. Obj Comment (fields_of x)) (dict_get kvs ''comment'')
          \<and> hasattr a ''blogEntry'' = (dict_get kvs ''blogEntry'' \<noteq> None)
          \<and> hasattr a ''comment'' = (dict_get kvs ''comment'' \<noteq> None)
          \<and> keeps_fields [''blogEntry'', ''comment''] kvs a))
     \<and> (present_not_mapping (dict_get kvs ''blogEntry'') \<longrightarrow>
          new RecentAction (Raw (JObj kvs)) = Inl (AttributeError ''items''))
     \<and> (absent_or plain_mapping (dict_get kvs ''blogEntry'')
          \<and> present_not_mapping (dict_get kvs ''comment'') \<longrightarrow>
          new RecentAction (Raw (JObj kvs)) = Inl (AttributeError ''items''))"
proof (intro conjI impI)
  assume h: "absent_or plain_mapping (dict_get kvs ''blogEntry'')
        \<and> absent_or plain_mapping (dict_get kvs ''comment'')"
  with assms obtain a where a: "RecentAction_init (Raw (JObj kvs)) = Inr a"
    and b: "map_of a ''blogEntry''
              = map_option (\<lambda>x. Obj BlogEntry (fields_of x)) (dict_get kvs ''blogEntry'')"
    and c: "map_of a ''comment''
              = map_option (\<lambda>x. Obj Comment (fields_of x)) (dict_get kvs ''comment'')"
    using RecentAction_init_present [of kvs] by blast
  from assms a have k: "keeps_fields [''blogEntry'', ''comment''] kvs a"
    by (rule RecentAction_init_keeps)
  from a have n: "new RecentAction (Raw (JObj kvs)) = Inr (Obj RecentAction a)"
    by (simp add: new_def construct_def)
  have hb: "hasattr a ''blogEntry'' = (dict_get kvs ''blogEntry'' \<noteq> None)"
    by (simp add: hasattr_def b)
  have hc: "hasattr a ''comment'' = (dict_get kvs ''comment'' \<noteq> None)"
    by (simp add: hasattr_def c)
  from n b c hb hc k
  show "\<exists>a. new RecentAction (Raw (JObj kvs)) = Inr (Obj RecentAction a)
          \<and> map_of a ''blogEntry''
              = map_option (\<lambda>x. Obj BlogEntry (fields_of x)) (dict_get kvs ''blogEntry'')
          \<and> map_of a ''comment''
              = map_option (\<lambda>x. Obj Comment (fields_of x)) (dict_get kvs ''comment'')
          \<and> hasattr a ''blogEntry'' = (dict_get kvs ''blogEntry'' \<noteq> None)
          \<and> hasattr a ''comment'' = (dict_get kvs ''comment'' \<noteq> None)
          \<and> keeps_fields [''blogEntry'', ''comment''] kvs a"
    by blast
next
  assume "present_not_mapping (dict_get kvs ''blogEntry'')"
  then obtain j where "dict_get kvs ''blogEntry'' = Some j" and "\<not> is_mapping (Raw j)"
    by (rule present_not_mapping_cases)
  then show "new RecentAction (Raw (JObj kvs)) = Inl (AttributeError ''items'')"
    by (simp add: new_def RecentAction_init_eq [OF assms] construct_plain_other
          construct_def [of RecentAction])
next
  assume h: "absent_or plain_mapping (dict_get kvs ''blogEntry'')
          \<and> present_not_mapping (dict_get kvs ''comment'')"
  then obtain j where j: "dict_get kvs ''comment'' = Some j" "\<not> is_mapping (Raw j)"
    by (blast elim: present_not_mapping_cases)
  from h have "absent_or plain_mapping (dict_get kvs ''blogEntry'')"
    by simp
  then show "new RecentAction (Raw (JObj kvs)) = Inl (AttributeError ''items'')"
  proof (cases rule: plain_mapping_cases)
    case 1
    with j show ?thesis
      by (simp add: new_def RecentAction_init_eq [OF assms] construct_plain_other
          construct_def [of RecentAction])
  next
    case (2 m)
    with j show ?thesis
      by (simp add: new_def RecentAction_init_eq [OF assms] construct_plain
            construct_plain_other construct_def [of RecentAction])
  qed
qed

theorem RecentAction_wraps_present_fields_witness:
  "ordinary_names [(''timeSeconds'', JNum 1700000000),
                   (''comment'', JObj [(''id'', JNum 1), (''text'', JStr ''hi'')])]
   \<and> absent_or plain_mapping (dict_get [(''timeSeconds'', JNum 1700000000),
                   (''comment'', JObj [(''id'', JNum 1), (''text'', JStr ''hi'')])] ''blogEntry'')
   \<and> absent_or plain_mapping (dict_get [(''timeSeconds'', JNum 1700000000),
                   (''comment'', JObj [(''id'', JNum 1), (''text'', JStr ''hi'')])] ''comment'')
   \<and> (\<exists>a. new RecentAction (Raw (JObj [(''timeSeconds'', JNum 1700000000),
                   (''comment'', JObj [(''id'', JNum 1), (''text'', JStr ''hi'')])]))
            = Inr (Obj RecentAction a)
          \<and> map_of a ''comment''
            = Some (Obj Comment [(''id'', Raw (JNum 1)), (''text'', Raw (JStr ''hi''))])
          \<and> map_of a ''blogEntry'' = None
          \<and> \<not> hasattr a ''blogEntry'')
   \<and> ordinary_names [(''blogEntry'', JObj [(''id'', JNum 79)]), (''comment'', JObj [(''id'', JNum 1)])]
   \<and> (\<exists>a. new RecentAction (Raw (JObj [(''blogEntry'', JObj [(''id'', JNum 79)]),
                                         (''comment'', JObj [(''id'', JNum 1)])]))
            = Inr (Obj RecentAction a)
          \<and> map_of a ''blogEntry'' = Some (Obj BlogEntry [(''id'', Raw (JNum 79))])
          \<and> map_of a ''comment'' = Some (Obj Comment [(''id'', Raw (JNum 1))]))
   \<and> ordinary_names [(''timeSeconds'', JNum 1700000000), (''comment'', JNull)]
   \<and> present_not_mapping (dict_get [(''timeSeconds'', JNum 1700000000), (''comment'', JNull)]
        ''comment'')
   \<and> new RecentAction (Raw (JObj [(''timeSeconds'', JNum 1700000000), (''comment'', JNull)]))
       = Inl (AttributeError ''items'')"
proof -
  let ?c = "[(''id'', JNum 1), (''text'', JStr ''hi'')]"
  let ?k1 = "[(''timeSeconds'', JNum 1700000000), (''comment'', JObj ?c)]"
  let ?k2 = "[(''blogEntry'', JObj [(''id'', JNum 79)]), (''comment'', JObj [(''id'', JNum 1)])]"
  let ?k3 = "[(''timeSeconds'', JNum 1700000000), (''comment'', JNull)]"
  have o1: "ordinary_names ?k1" and o2: "ordinary_names ?k2" and o3: "ordinary_names ?k3"
    by code_simp+
  have b1: "dict_get ?k1 ''blogEntry'' = None"
    and c1: "dict_get ?k1 ''comment'' = Some (JObj ?c)"
    and b2: "dict_get ?k2 ''blogEntry'' = Some (JObj [(''id'', JNum 79)])"
    and c2: "dict_get ?k2 ''comment'' = Some (JObj [(''id'', JNum 1)])"
    and b3: "dict_get ?k3 ''blogEntry'' = None"
    and c3: "dict_get ?k3 ''comment'' = Some JNull"
    by code_simp+
  have f: "raw_attrs ?c = [(''id'', Raw (JNum 1)), (''text'', Raw (JStr ''hi''))]"
    "raw_attrs [(''id'', JNum 79)] = [(''id'', Raw (JNum 79))]"
    "raw_attrs [(''id'', JNum 1)] = [(''id'', Raw (JNum 1))]"
    by code_simp+
  have a1: "absent_or plain_mapping (dict_get ?k1 ''blogEntry'')"
    and a1': "absent_or plain_mapping (dict_get ?k1 ''comment'')"
    and a2: "absent_or plain_mapping (dict_get ?k2 ''blogEntry'')"
    and a2': "absent_or plain_mapping (dict_get ?k2 ''comment'')"
    and a3: "absent_or plain_mapping (dict_get ?k3 ''blogEntry'')"
    and p3: "present_not_mapping (dict_get ?k3 ''comment'')"
    by code_simp+
  from RecentAction_wraps_present_fields [OF o1, THEN conjunct1] a1 a1'
  have r1: "\<exists>a. new RecentAction (Raw (JObj ?k1)) = Inr (Obj RecentAction a)
          \<and> map_of a ''comment'' = Some (Obj Comment [(''id'', Raw (JNum 1)), (''text'', Raw (JStr ''hi''))])
          \<and> map_of a ''blogEntry'' = None
          \<and> \<not> hasattr a ''blogEntry''"
    unfolding b1 c1 by (auto simp: f)
  from RecentAction_wraps_present_fields [OF o2, THEN conjunct1] a2 a2'
  have r2: "\<exists>a. new RecentAction (Raw (JObj ?k2)) = Inr (Obj RecentAction a)
          \<and> map_of a ''blogEntry'' = Some (Obj BlogEntry [(''id'', Raw (JNum 79))])
          \<and> map_of a ''comment'' = Some (Obj Comment [(''id'', Raw (JNum 1))])"
    unfolding b2 c2 by (auto simp: f)
  from RecentAction_wraps_present_fields [OF o3, THEN conjunct2, THEN conjunct2] a3 p3
  have r3: "new RecentAction (Raw (JObj ?k3)) = Inl (AttributeError ''items'')"
    by blast
  from o1 a1 a1' r1 o2 r2 o3 p3 r3 show ?thesis
    by (intro conjI)
qed

subsection \<open>No mapper error is a validation error\<close>

lemma and_then_not:
  "m \<noteq> Inl E \<Longrightarrow> (\<And>x. f x \<noteq> Inl E) \<Longrightarrow> and_then m f \<noteq> Inl E"
  by (cases m) simp_all

lemma items_not_validation: "items j \<noteq> Inl (ValidationError m)"
  by (cases j rule: items.cases) simp_all

lemma iter_not_validation: "iter j \<noteq> Inl (ValidationError m)"
  by (cases j rule: iter.cases) simp_all

lemma getattr_not_validation: "getattr a n \<noteq> Inl (ValidationError m)"
  by (simp add: getattr_def split: option.splits)

lemma setattr_not_validation: "setattr a n v \<noteq> Inl (ValidationError m)"
  by (simp add: setattr_def split: pyobj.splits json.splits)

lemma getitem_not_validation: "getitem j k \<noteq> Inl (ValidationError m)"
  by (cases "(j, k)" rule: getitem.cases) (simp_all split: option.splits)

lemma map_new_not_validation:
  "(\<And>x. f x \<noteq> Inl (ValidationError m)) \<Longrightarrow> map_new f xs \<noteq> Inl (ValidationError m)"
  by (induction xs) (simp_all add: and_then_not)

lemma init_loop_not_validation: "init_loop xs acc \<noteq> Inl (ValidationError m)"
proof (induction xs arbitrary: acc)
  case Nil
  then show ?case by simp
next
  case (Cons x xs)
  obtain n v where x: "x = (n, v)" by (cases x)
  show ?case
    unfolding x init_loop.simps
    by (intro and_then_not setattr_not_validation Cons.IH)
qed

lemma CodeforcesResponse_init_not_validation:
  "CodeforcesResponse_init j \<noteq> Inl (ValidationError m)"
  unfolding CodeforcesResponse_init_def
  by (intro and_then_not items_not_validation init_loop_not_validation)

lemma construct_not_validation:
  "(\<And>j. init j \<noteq> Inl (ValidationError m)) \<Longrightarrow> construct c init j \<noteq> Inl (ValidationError m)"
  unfolding construct_def by (intro and_then_not) simp_all

lemmas not_validation_intros =
  and_then_not items_not_validation iter_not_validation getattr_not_validation
  setattr_not_validation getitem_not_validation map_new_not_validation
  CodeforcesResponse_init_not_validation construct_not_validation

lemma Party_init_not_validation: "Party_init j \<noteq> Inl (ValidationError m)"
  unfolding Party_init_def
  by (intro not_validation_intros)

lemma Submission_init_not_validation: "Submission_init j \<noteq> Inl (ValidationError m)"
  unfolding Submission_init_def
  by (intro not_validation_intros Party_init_not_validation)

lemma last_api_item_not_validation: "last_api_item self k \<noteq> Inl (ValidationError m)"
  by (simp add: last_api_item_def getitem_not_validation split: last.splits)

lemma problemset_recentStatus_result_not_validation:
  "problemset_recentStatus_result self \<noteq> Inl (ValidationError m)"
  unfolding problemset_recentStatus_result_def new_def
  by (intro not_validation_intros last_api_item_not_validation) (simp_all add: Submission_init_not_validation)

lemma request_api_not_validation:
  "fst (request_api e self meth kw) \<noteq> Inl (ValidationError m)"
  using getitem_not_validation [of _ _ m]
  by (auto simp: request_api_def check_request_def Let_def split: sum.splits option.splits if_splits)

lemma request_api_sent:
  "sent (snd (request_api e self meth kw))
     = sent self @ [api_link @ meth @ ''?'' @ url_api_request e self meth kw]"
  by (auto simp: request_api_def check_request_def Let_def split: sum.splits option.splits if_splits)

section \<open>Properties of the method surface\<close>

text \<open>
  C9. \<^verbatim>\<open>problemset_recentStatus\<close> with \<open>count = 1001\<close> raises the validation error and
  returns the object as it was, with no URL requested; with \<open>count = 1000\<close> whatever it
  raises is not a validation error, and exactly one URL has been requested.
\<close>

theorem problemset_recentStatus_count_limit:
  "problemset_recentStatus e self 1001 psn
     = (Inl (ValidationError ''count is 1001. Maximim: 1000''), self)
   \<and> (\<forall>m. fst (problemset_recentStatus e self 1000 psn) \<noteq> Inl (ValidationError m))
   \<and> sent (snd (problemset_recentStatus e self 1000 psn))
       = sent self @ [api_link @ ''problemset.recentStatus'' @ ''?'' @
           url_api_request e self ''problemset.recentStatus''
             [(''count'', Scalar (PyInt 1000)), (''problemsetName'', opt_str psn)]]"
proof (intro conjI allI)
  have "str_int 1001 = ''1001''"
    by (simp add: str_int_def str_digits.simps)
  then show "problemset_recentStatus e self 1001 psn
     = (Inl (ValidationError ''count is 1001. Maximim: 1000''), self)"
    by (simp add: problemset_recentStatus_def)
next
  fix m
  let ?kw = "[(''count'', Scalar (PyInt 1000)), (''problemsetName'', opt_str psn)]"
  obtain res self' where r: "request_api e self ''problemset.recentStatus'' ?kw = (res, self')"
    by (cases "request_api e self ''problemset.recentStatus'' ?kw")
  from request_api_not_validation [of e self "''problemset.recentStatus''" ?kw m] r
  have "res \<noteq> Inl (ValidationError m)"
    by simp
  then show "fst (problemset_recentStatus e self 1000 psn) \<noteq> Inl (ValidationError m)"
    using problemset_recentStatus_result_not_validation [of self' m]
    by (cases res) (simp_all add: problemset_recentStatus_def r)
next
  let ?kw = "[(''count'', Scalar (PyInt 1000)), (''problemsetName'', opt_str psn)]"
  obtain res self' where r: "request_api e self ''problemset.recentStatus'' ?kw = (res, self')"
    by (cases "request_api e self ''problemset.recentStatus'' ?kw")
  from request_api_sent [of e self "''problemset.recentStatus''" ?kw] r
  have "sent self' = sent self @ [api_link @ ''problemset.recentStatus'' @ ''?'' @
           url_api_request e self ''problemset.recentStatus'' ?kw]"
    by simp
  then show "sent (snd (problemset_recentStatus e self 1000 psn))
       = sent self @ [api_link @ ''problemset.recentStatus'' @ ''?'' @
           url_api_request e self ''problemset.recentStatus'' ?kw]"
    by (cases res) (simp_all add: problemset_recentStatus_def r)
qed

theorem problemset_recentStatus_count_limit_witness:
  "problemset_recentStatus fixed_env
      \<lparr>key = None, secret = None, lang = ''en'', last_api = Unset, sent = []\<rparr> 1001 None
     = (Inl (ValidationError ''count is 1001. Maximim: 1000''),
        \<lparr>key = None, secret = None, lang = ''en'', last_api = Unset, sent = []\<rparr>)
   \<and> sent (snd (problemset_recentStatus fixed_env
      \<lparr>key = None, secret = None, lang = ''en'', last_api = Unset, sent = []\<rparr> 1000 None))
     = [''http://codeforces.com/api/problemset.recentStatus?count=1000&lang=en'']"
proof -
  let ?self = "\<lparr>key = None, secret = None, lang = ''en'', last_api = Unset, sent = []\<rparr>"
  note t = problemset_recentStatus_count_limit [of fixed_env ?self None]
  have ev: "sent ?self @ [api_link @ ''problemset.recentStatus'' @ ''?'' @
           url_api_request fixed_env ?self ''problemset.recentStatus''
             [(''count'', Scalar (PyInt 1000)), (''problemsetName'', opt_str None)]]
        = [''http://codeforces.com/api/problemset.recentStatus?count=1000&lang=en'']"
    by code_simp
  from t show ?thesis
    unfolding ev by blast
qed

lemma request_api_ok:
  assumes "http_request e (api_link @ meth @ ''?'' @ url_api_request e self meth kw) = r"
    and "ok r" and "json_of r = Some (JObj body)"
    and "dict_get body ''status'' = Some (JStr ''OK'')"
  shows "request_api e self meth kw
           = (Inr (JObj body),
              self\<lparr>last_api := Parsed (JObj body),
                   sent := sent self @ [api_link @ meth @ ''?'' @ url_api_request e self meth kw]\<rparr>)"
  using assms by (simp add: request_api_def check_request_def Let_def)

lemma new_User_mapping:
  "plain_mapping x \<Longrightarrow> new User (Raw x) = Inr (Obj User (fields_of x))"
  by (cases x) (simp_all add: new_def construct_plain)

lemma map_new_User:
  "list_all plain_mapping rs
     \<Longrightarrow> map_new (new User) (map Raw rs) = Inr (map (\<lambda>x. Obj User (fields_of x)) rs)"
  by (induction rs) (simp_all add: new_User_mapping)

lemma user_info_result_eq:
  assumes "last_api self = Parsed (JObj body)"
    and "dict_get body ''result'' = Some (JArr rs)"
    and "list_all plain_mapping rs"
  shows "user_info_result self =
           (if length rs = 1 then Inr (Obj User (fields_of (hd rs)))
            else Inr (ObjList (map (\<lambda>x. Obj User (fields_of x)) rs)))"
proof (cases "length rs = 1")
  case True
  then obtain x where rs: "rs = [x]"
    by (cases rs) simp_all
  with assms show ?thesis
    by (simp add: user_info_result_def last_api_item_def new_User_mapping)
next
  case False
  with assms show ?thesis
    by (simp add: user_info_result_def last_api_item_def map_new_User)
qed

text \<open>
  C6, as the specification states it, fails: the code never counts the handles. With two
  handles and a service answer of one record it returns a single \<open>User\<close> record, not a
  list of two; with one handle and a service answer of two records it returns a list.
\<close>

theorem user_info_result_length_counterexample:
  "fst (user_info
          (fixed_env\<lparr>http_request := answer (JObj [(''status'', JStr ''OK''),
             (''result'', JArr [JObj [(''handle'', JStr ''DmitryH'')]])])\<rparr>)
          \<lparr>key = None, secret = None, lang = ''en'', last_api = Unset, sent = []\<rparr>
          (PyList [PyStr ''DmitryH'', PyStr ''Fefer_Ivan'']))
     = Inr (Obj User [(''handle'', Raw (JStr ''DmitryH''))])
   \<and> fst (user_info
          (fixed_env\<lparr>http_request := answer (JObj [(''status'', JStr ''OK''),
             (''result'', JArr [JObj [(''handle'', JStr ''tourist'')],
                                JObj [(''handle'', JStr ''Petr'')]])])\<rparr>)
          \<lparr>key = None, secret = None, lang = ''en'', last_api = Unset, sent = []\<rparr>
          (Scalar (PyStr ''tourist'')))
     = Inr (ObjList [Obj User [(''handle'', Raw (JStr ''tourist''))],
                     Obj User [(''handle'', Raw (JStr ''Petr''))]])"
  by code_simp

text \<open>
  C6, amended. Let the handles, a string wrapped into a one-element list or a list as
  given, be at most 10000, and let the service answer the request with status \<open>OK\<close> and a
  result list of raw user mappings with ordinary field names. Then \<^verbatim>\<open>user_info\<close> returns a
  single \<open>User\<close> record, not a list, when the result list has exactly one element, and
  otherwise the list of the \<open>User\<close> records of its elements, as long as the result list.
  So where the service answers with one record for each handle, one handle gives a single
  record and any other number of handles a list as long as the handles.
\<close>

theorem user_info_single_or_list:
  assumes "as_list handles = PyList hs" and "length hs \<le> 10000"
    and "http_request e (api_link @ ''user.info'' @ ''?'' @
           url_api_request e self ''user.info'' [(''handles'', PyList hs)]) = r"
    and "ok r" and "json_of r = Some (JObj body)"
    and "dict_get body ''status'' = Some (JStr ''OK'')"
    and "dict_get body ''result'' = Some (JArr rs)"
    and "list_all plain_mapping rs"
  shows "(length rs = 1 \<longrightarrow>
            fst (user_info e self handles) = Inr (Obj User (fields_of (hd rs))))
       \<and> (length rs \<noteq> 1 \<longrightarrow>
            fst (user_info e self handles)
              = Inr (ObjList (map (\<lambda>x. Obj User (fields_of x)) rs))
            \<and> length (map (\<lambda>x. Obj User (fields_of x)) rs) = length rs)
       \<and> (length rs = length hs \<longrightarrow>
            (length hs = 1 \<longrightarrow>
               fst (user_info e self handles) = Inr (Obj User (fields_of (hd rs))))
            \<and> (length hs \<noteq> 1 \<longrightarrow>
               (\<exists>us. fst (user_info e self handles) = Inr (ObjList us)
                     \<and> length us = length hs)))"
proof -
  let ?url = "api_link @ ''user.info'' @ ''?'' @
                url_api_request e self ''user.info'' [(''handles'', PyList hs)]"
  let ?self = "self\<lparr>last_api := Parsed (JObj body), sent := sent self @ [?url]\<rparr>"
  have req: "request_api e self ''user.info'' [(''handles'', PyList hs)] = (Inr (JObj body), ?self)"
    using assms(3,4,5,6) by (rule request_api_ok)
  have "last_api ?self = Parsed (JObj body)"
    by simp
  then have res: "user_info_result ?self =
           (if length rs = 1 then Inr (Obj User (fields_of (hd rs)))
            else Inr (ObjList (map (\<lambda>x. Obj User (fields_of x)) rs)))"
    using assms(7,8) by (rule user_info_result_eq)
  have "fst (user_info e self handles) = user_info_result ?self"
    using assms(1,2) by (simp add: user_info_def Let_def req)
  with res show ?thesis
    by simp
qed

theorem user_info_single_or_list_witness:
  "as_list (Scalar (PyStr ''tourist'')) = PyList [PyStr ''tourist'']
   \<and> fst (user_info
          (fixed_env\<lparr>http_request := answer (JObj [(''status'', JStr ''OK''),
             (''result'', JArr [JObj [(''handle'', JStr ''tourist''), (''rating'', JNum 3800)]])])\<rparr>)
          \<lparr>key = None, secret = None, lang = ''en'', last_api = Unset, sent = []\<rparr>
          (Scalar (PyStr ''tourist'')))
       = Inr (Obj User [(''handle'', Raw (JStr ''tourist'')), (''rating'', Raw (JNum 3800))])
   \<and> fst (user_info
          (fixed_env\<lparr>http_request := answer (JObj [(''status'', JStr ''OK''),
             (''result'', JArr [JObj [(''handle'', JStr ''DmitryH'')],
                                JObj [(''handle'', JStr ''Fefer_Ivan'')]])])\<rparr>)
          \<lparr>key = None, secret = None, lang = ''en'', last_api = Unset, sent = []\<rparr>
          (PyList [PyStr ''DmitryH'', PyStr ''Fefer_Ivan'']))
       = Inr (ObjList [Obj User [(''handle'', Raw (JStr ''DmitryH''))],
                       Obj User [(''handle'', Raw (JStr ''Fefer_Ivan''))]])"
proof -
  let ?self = "\<lparr>key = None, secret = None, lang = ''en'', last_api = Unset, sent = []\<rparr>"
  let ?rs1 = "[JObj [(''handle'', JStr ''tourist''), (''rating'', JNum 3800)]]"
  let ?body1 = "[(''status'', JStr ''OK''), (''result'', JArr ?rs1)]"
  let ?e1 = "fixed_env\<lparr>http_request := answer (JObj ?body1)\<rparr>"
  let ?rs2 = "[JObj [(''handle'', JStr ''DmitryH'')], JObj [(''handle'', JStr ''Fefer_Ivan'')]]"
  let ?body2 = "[(''status'', JStr ''OK''), (''result'', JArr ?rs2)]"
  let ?e2 = "fixed_env\<lparr>http_request := answer (JObj ?body2)\<rparr>"
  have a1: "as_list (Scalar (PyStr ''tourist'')) = PyList [PyStr ''tourist'']"
    by (simp add: as_list_def)
  have a2: "as_list (PyList [PyStr ''DmitryH'', PyStr ''Fefer_Ivan''])
              = PyList [PyStr ''DmitryH'', PyStr ''Fefer_Ivan'']"
    by (simp add: as_list_def)
  have s1: "dict_get ?body1 ''status'' = Some (JStr ''OK'')"
    by code_simp
  have r1: "dict_get ?body1 ''result'' = Some (JArr ?rs1)"
    by code_simp
  have s2: "dict_get ?body2 ''status'' = Some (JStr ''OK'')"
    by code_simp
  have r2: "dict_get ?body2 ''result'' = Some (JArr ?rs2)"
    by code_simp
  have p1: "list_all plain_mapping ?rs1"
    by code_simp
  have p2: "list_all plain_mapping ?rs2"
    by code_simp
  have f1: "fields_of (hd ?rs1) = [(''handle'', Raw (JStr ''tourist'')), (''rating'', Raw (JNum 3800))]"
    by code_simp
  have f2: "map (\<lambda>x. Obj User (fields_of x)) ?rs2
              = [Obj User [(''handle'', Raw (JStr ''DmitryH''))],
                 Obj User [(''handle'', Raw (JStr ''Fefer_Ivan''))]]"
    by code_simp
  have "fst (user_info ?e1 ?self (Scalar (PyStr ''tourist''))) = Inr (Obj User (fields_of (hd ?rs1)))"
    using user_info_single_or_list [OF a1 _ _ _ _ s1 r1 p1, where e = ?e1 and self = ?self
        and r = "\<lparr>ok = True, status_code = 200, json_of = Some (JObj ?body1)\<rparr>"]
    by (simp add: answer_def)
  moreover have "fst (user_info ?e2 ?self (PyList [PyStr ''DmitryH'', PyStr ''Fefer_Ivan'']))
                   = Inr (ObjList (map (\<lambda>x. Obj User (fields_of x)) ?rs2))"
    using user_info_single_or_list [OF a2 _ _ _ _ s2 r2 p2, where e = ?e2 and self = ?self
        and r = "\<lparr>ok = True, status_code = 200, json_of = Some (JObj ?body2)\<rparr>"]
    by (simp add: answer_def)
  ultimately show ?thesis
    unfolding f1 f2 using a1 by (intro conjI)
qed

text \<open>
  Whenever \<^verbatim>\<open>contest_standings\<close> returns, the value is a list of three elements of which
  the first is a \<open>Contest\<close> record and the other two are lists.
\<close>

lemma contest_standings_result_shape:
  assumes "contest_standings_result self = Inr v"
  shows "\<exists>a ps rs. v = ObjList [Obj Contest a, ObjList ps, ObjList rs]"
  using assms
  by (auto simp: contest_standings_result_def and_then_Inr_iff new_def construct_Inr_iff)

lemma contest_standings_shape:
  assumes "fst (contest_standings e self contestId from_row cnt handles room showUnofficial) = Inr v"
  shows "\<exists>a ps rs. v = ObjList [Obj Contest a, ObjList ps, ObjList rs]"
proof -
  have req: "\<exists>a ps rs. v = ObjList [Obj Contest a, ObjList ps, ObjList rs]"
    if "fst (contest_standings_request e self contestId from_row cnt h room showUnofficial) = Inr v"
    for h
  proof -
    obtain res self' where r: "request_api e self ''contest.standings''
        [(''contestId'', Scalar (PyInt contestId)), (''from'', opt_int from_row),
         (''count'', opt_int cnt), (''handles'', h), (''room'', opt_int room),
         (''showUnofficial'', opt_bool showUnofficial)] = (res, self')"
      by (cases "request_api e self ''contest.standings''
        [(''contestId'', Scalar (PyInt contestId)), (''from'', opt_int from_row),
         (''count'', opt_int cnt), (''handles'', h), (''room'', opt_int room),
         (''showUnofficial'', opt_bool showUnofficial)]")
    from that have "contest_standings_result self' = Inr v"
      by (cases res) (simp_all add: contest_standings_request_def r)
    then show ?thesis
      by (rule contest_standings_result_shape)
  qed
  from assms show ?thesis
    by (auto simp: contest_standings_def Let_def req split: if_splits sum.splits)
qed

text \<open>
  C7. The specification, like the docstring of \<^verbatim>\<open>contest_standings\<close> (a list of 3 lists, the
  first a list of \<open>Contest\<close>), has the first element a list of \<open>Contest\<close> records. The
  code returns \<^verbatim>\<open>Contest(self.last_api['result']['contest'])\<close> there, a record that is
  not in a list: for contest 566, with a service answer of one contest, one problem and
  one ranklist row, the value returned is a \<open>Contest\<close> record, a list of one \<open>Problem\<close>
  and a list of one \<open>RanklistRow\<close>.
\<close>

theorem contest_standings_returns_bare_contest:
  "fst (contest_standings
          (fixed_env\<lparr>http_request := answer (JObj [(''status'', JStr ''OK''),
             (''result'', JObj [
                (''contest'', JObj [(''id'', JNum 566), (''name'', JStr ''VK Cup'')]),
                (''problems'', JArr [JObj [(''index'', JStr ''A'')]]),
                (''rows'', JArr [JObj [
                   (''party'', JObj [(''members'', JArr [JObj [(''handle'', JStr ''tourist'')]])]),
                   (''rank'', JNum 1),
                   (''problemResults'', JArr [JObj [(''points'', JNum 500)]])]])])])\<rparr>)
          \<lparr>key = None, secret = None, lang = ''en'', last_api = Unset, sent = []\<rparr>
          566 (Some 1) (Some 5) (Scalar PyNone) None (Some True))
     = Inr (ObjList
         [Obj Contest [(''id'', Raw (JNum 566)), (''name'', Raw (JStr ''VK Cup''))],
          ObjList [Obj Problem [(''index'', Raw (JStr ''A''))]],
          ObjList [Obj RanklistRow
             [(''party'', Obj Party [(''members'',
                  ObjList [Obj Member [(''handle'', Raw (JStr ''tourist''))]])]),
              (''rank'', Raw (JNum 1)),
              (''problemResults'', ObjList [Obj ProblemResult [(''points'', Raw (JNum 500))]])]]])"
  by code_simp

end
